theory Spec2Isabelle
  imports Complex_Main "HOL-Library.AList"
begin

section \<open>Errors, external calls and their trace\<close>

text \<open>
  The converter script is an orchestration of calls into external libraries (the CZI
  reader, numpy, tifffile, PyImarisWriter, tkinter dialogs). Every exception of the
  source is a value of \<open>error\<close>; every call that leaves the process is recorded in a
  trace, in call order, so that "before", "after" and "never" can be stated. The
  \<open>print\<close> lines of the source are not part of the trace.
\<close>

datatype error =
    RuntimeError string
  | IndexError
  | ValueError
  | ExternalError string

type_synonym ('x, 'ev) io = "(error + 'x) \<times> 'ev list"

definition io_ret :: "'x \<Rightarrow> ('x, 'ev) io" where
  "io_ret v = (Inr v, [])"

definition io_raise :: "error \<Rightarrow> ('x, 'ev) io" where
  "io_raise e = (Inl e, [])"

definition io_lift :: "error + 'x \<Rightarrow> ('x, 'ev) io" where
  "io_lift r = (r, [])"

definition io_call :: "'ev \<Rightarrow> error + 'x \<Rightarrow> ('x, 'ev) io" where
  "io_call ev r = (r, [ev])"

definition io_bind :: "('x, 'ev) io \<Rightarrow> ('x \<Rightarrow> ('y, 'ev) io) \<Rightarrow> ('y, 'ev) io" where
  "io_bind m f =
     (case m of
        (Inl e, tr) \<Rightarrow> (Inl e, tr)
      | (Inr v, tr) \<Rightarrow> (case f v of (r, tr') \<Rightarrow> (r, tr @ tr')))"

text \<open>A Python \<open>for i in ...: body\<close> that threads the mutated object through.\<close>

fun for_each :: "'i list \<Rightarrow> ('i \<Rightarrow> 'st \<Rightarrow> ('st, 'ev) io) \<Rightarrow> 'st \<Rightarrow> ('st, 'ev) io" where
  "for_each [] body st = io_ret st"
| "for_each (i # rest) body st = io_bind (body i st) (for_each rest body)"

section \<open>numpy arrays\<close>

text \<open>
  An array is its shape, its dtype and its C-contiguous buffer. The element type and the
  dtype tags are left open; \<open>astype\<close> of the environment is numpy's value conversion.
\<close>

record ('d, 'a) ndarray =
  shape :: "nat list"
  dtype :: 'd
  data :: "'a list"

definition np_zeros :: "nat list \<Rightarrow> 'd \<Rightarrow> ('d, 'a::zero) ndarray" where
  "np_zeros shp dt = \<lparr>shape = shp, dtype = dt, data = replicate (prod_list shp) 0\<rparr>"

text \<open>\<open>shp[-k]\<close> on a tuple: IndexError when the tuple is shorter than \<open>k\<close>.\<close>

definition shape_neg :: "nat list \<Rightarrow> nat \<Rightarrow> error + nat" where
  "shape_neg shp k =
     (if 1 \<le> k \<and> k \<le> length shp then Inr (shp ! (length shp - k)) else Inl IndexError)"

text \<open>
  \<open>a.reshape(-1, Y, X)\<close>: the unknown extent is the size divided by \<open>Y * X\<close>; numpy
  raises ValueError when \<open>Y * X\<close> is zero or does not divide the size.
\<close>

definition reshape_m1 :: "('d, 'a) ndarray \<Rightarrow> nat \<Rightarrow> nat \<Rightarrow> error + ('d, 'a) ndarray" where
  "reshape_m1 a Y X =
     (let n = prod_list (shape a) in
      if Y * X = 0 then Inl ValueError
      else if n mod (Y * X) \<noteq> 0 then Inl ValueError
      else Inr (a\<lparr>shape := [n div (Y * X), Y, X]\<rparr>))"

text \<open>\<open>a[0]\<close>: the first entry along the leading axis.\<close>

definition getitem0 :: "('d, 'a) ndarray \<Rightarrow> error + ('d, 'a) ndarray" where
  "getitem0 a =
     (case shape a of
        [] \<Rightarrow> Inl IndexError
      | n # rest \<Rightarrow>
          if n = 0 then Inl IndexError
          else Inr \<lparr>shape = rest, dtype = dtype a, data = take (prod_list rest) (data a)\<rparr>)"

definition write_at :: "nat \<Rightarrow> 'a list \<Rightarrow> 'a list \<Rightarrow> 'a list" where
  "write_at off p xs = take off xs @ p @ drop (off + length p) xs"

definition plane_offset :: "nat \<Rightarrow> nat \<Rightarrow> nat \<Rightarrow> nat \<Rightarrow> nat \<Rightarrow> nat \<Rightarrow> nat \<Rightarrow> nat" where
  "plane_offset C Z Y X t c z = ((t * C + c) * Z + z) * (Y * X)"

text \<open>The buffer of \<open>arr[t, c, z]\<close> for a 5-dimensional \<open>arr\<close>.\<close>

definition nd_slice3 :: "('d, 'a) ndarray \<Rightarrow> nat \<Rightarrow> nat \<Rightarrow> nat \<Rightarrow> 'a list" where
  "nd_slice3 arr t c z =
     (case shape arr of
        [T, C, Z, Y, X] \<Rightarrow> take (Y * X) (drop (plane_offset C Z Y X t c z) (data arr))
      | _ \<Rightarrow> [])"

text \<open>\<open>arr.ravel(order='C')\<close> of a C-contiguous array is its buffer.\<close>

definition ravel_C :: "('d, 'a) ndarray \<Rightarrow> 'a list" where
  "ravel_C arr = data arr"

section \<open>The environment of a run\<close>

record ('d, 'a) czi_file =
  dims :: string
  size_czi :: "nat list"
  read_mosaic :: "nat \<Rightarrow> nat \<Rightarrow> nat \<Rightarrow> real \<Rightarrow> error + ('d, 'a) ndarray"

datatype image_size =
  ImageSize (size_x: nat) (size_y: nat) (size_z: nat) (size_c: nat) (size_t: nat)

datatype options = Options

datatype color = Color real real real real

datatype color_info = ColorInfo (base_color: "color option")

datatype parameters = Parameters (channel_names: "(nat \<times> string) list")

datatype image_extents = ImageExtents real real real real real real

datatype ('d, 'a) event =
    EvCziFile string
  | EvReadMosaic nat nat nat real
  | EvImwrite string "('d, 'a) ndarray" "(string \<times> string) list" bool
  | EvAskFloat string string real
  | EvImageConverter string image_size image_size "string list" image_size
      string options string string
  | EvCopyBlock "'a list" image_size
  | EvFinish image_extents parameters "nat list" "color_info list" bool
  | EvDestroy

text \<open>
  What the outside world answers. Each writer call is made at most once in a run, so its
  outcome (\<open>Inr ()\<close>, or the exception it raises) is a field. \<open>IMARIS_AVAILABLE\<close> is the
  module-level flag set by the guarded import at process start; \<open>now\<close> is what
  \<open>datetime.now()\<close> returns.
\<close>

record ('d, 'a) env =
  IMARIS_AVAILABLE :: bool
  CziFile :: "string \<Rightarrow> error + ('d, 'a) czi_file"
  astype :: "'d \<Rightarrow> 'a \<Rightarrow> 'a"
  dtype_str :: "'d \<Rightarrow> string"
  askfloat :: "string \<Rightarrow> string \<Rightarrow> real \<Rightarrow> real option"
  imwrite_result :: "error + unit"
  ImageConverter_result :: "error + unit"
  CopyBlock_result :: "error + unit"
  Finish_result :: "error + unit"
  Destroy_result :: "error + unit"
  now :: nat

text \<open>
  \<open>arr[t, c, z] = v\<close> for a 5-dimensional \<open>arr\<close>: the indices must be in range, \<open>v\<close> must
  have the shape of the slice (the only shape the converters ever assign), and the values
  are converted to the dtype of \<open>arr\<close>; between equal dtypes the copy is verbatim.
\<close>

definition cast_to :: "('d, 'a) env \<Rightarrow> 'd \<Rightarrow> 'd \<Rightarrow> 'a \<Rightarrow> 'a" where
  "cast_to env src dst v = (if src = dst then v else astype env dst v)"

definition setitem3 ::
  "('d, 'a) env \<Rightarrow> ('d, 'a) ndarray \<Rightarrow> nat \<Rightarrow> nat \<Rightarrow> nat \<Rightarrow> ('d, 'a) ndarray
     \<Rightarrow> error + ('d, 'a) ndarray" where
  "setitem3 env arr t c z v =
     (case shape arr of
        [T, C, Z, Y, X] \<Rightarrow>
          if t < T \<and> c < C \<and> z < Z then
            (if shape v = [Y, X] then
               Inr (arr\<lparr>data := write_at (plane_offset C Z Y X t c z)
                                 (map (cast_to env (dtype v) (dtype arr)) (data v))
                                 (data arr)\<rparr>)
             else Inl ValueError)
          else Inl IndexError
      | _ \<Rightarrow> Inl IndexError)"

section \<open>Probing the extents and assembling the volume\<close>

text \<open>\<open>dict(zip(keys, values))\<close>: zip stops at the shorter side, a later pair overwrites.\<close>

definition dict_of :: "('k \<times> 'v) list \<Rightarrow> ('k \<rightharpoonup> 'v)" where
  "dict_of kvs = fold (\<lambda>(k, v) m. m(k \<mapsto> v)) kvs Map.empty"

definition dict_get :: "('k \<rightharpoonup> 'v) \<Rightarrow> 'k \<Rightarrow> 'v \<Rightarrow> 'v" where
  "dict_get m k d = (case m k of None \<Rightarrow> d | Some v \<Rightarrow> v)"

text \<open>Lines 46-47 and 70-71: \<open>sizes = dict(zip(czi.dims, czi.size))\<close> and the three \<open>get\<close>s.\<close>

definition probe_extents :: "('d, 'a) czi_file \<Rightarrow> nat \<times> nat \<times> nat" where
  "probe_extents czi =
     (let sizes = dict_of (zip (dims czi) (size_czi czi)) in
      (dict_get sizes (CHR ''T'') 1, dict_get sizes (CHR ''C'') 1, dict_get sizes (CHR ''Z'') 1))"

text \<open>Lines 57-59 and 81-83: the body of the innermost loop.\<close>

definition copy_plane ::
  "('d, 'a) env \<Rightarrow> ('d, 'a) czi_file \<Rightarrow> real \<Rightarrow> nat \<Rightarrow> nat \<Rightarrow> nat \<Rightarrow> nat \<Rightarrow> nat
     \<Rightarrow> ('d, 'a) ndarray \<Rightarrow> (('d, 'a) ndarray, ('d, 'a) event) io" where
  "copy_plane env czi scale Y X t c z arr =
     io_bind (io_call (EvReadMosaic t c z scale) (read_mosaic czi t c z scale)) (\<lambda>mos.
     io_bind (io_lift (reshape_m1 mos Y X)) (\<lambda>planes.
     io_bind (io_lift (getitem0 planes)) (\<lambda>plane.
     io_lift (setitem3 env arr t c z plane))))"

text \<open>Lines 54-59 and 78-83: the three nested loops.\<close>

definition fill_volume ::
  "('d, 'a) env \<Rightarrow> ('d, 'a) czi_file \<Rightarrow> real \<Rightarrow> nat \<Rightarrow> nat \<Rightarrow> nat \<Rightarrow> nat \<Rightarrow> nat
     \<Rightarrow> ('d, 'a) ndarray \<Rightarrow> (('d, 'a) ndarray, ('d, 'a) event) io" where
  "fill_volume env czi scale T C Z Y X arr =
     for_each [0..<T] (\<lambda>t.
       for_each [0..<C] (\<lambda>c.
         for_each [0..<Z] (\<lambda>z. copy_plane env czi scale Y X t c z))) arr"

text \<open>
  Lines 46-59 of \<open>convert_to_ometiff\<close>, repeated verbatim as lines 70-83 of
  \<open>convert_to_ims\<close>: probe the extents, read the sample plane, allocate, fill.
\<close>

definition assemble_volume ::
  "('d, 'a::zero) env \<Rightarrow> ('d, 'a) czi_file \<Rightarrow> real
     \<Rightarrow> (nat \<times> nat \<times> nat \<times> nat \<times> nat \<times> ('d, 'a) ndarray, ('d, 'a) event) io" where
  "assemble_volume env czi scale =
     (case probe_extents czi of (T, C, Z) \<Rightarrow>
      io_bind (io_call (EvReadMosaic 0 0 0 scale) (read_mosaic czi 0 0 0 scale)) (\<lambda>sample.
      io_bind (io_lift (shape_neg (shape sample) 2)) (\<lambda>Y.
      io_bind (io_lift (shape_neg (shape sample) 1)) (\<lambda>X.
      io_bind (fill_volume env czi scale T C Z Y X (np_zeros [T, C, Z, Y, X] (dtype sample)))
        (\<lambda>arr. io_ret (T, C, Z, Y, X, arr))))))"

section \<open>The OME-TIFF converter\<close>

text \<open>Lines 43-63: open the file, assemble, hand the array to \<open>tifffile.imwrite\<close>.\<close>

definition convert_to_ometiff ::
  "('d, 'a::zero) env \<Rightarrow> string \<Rightarrow> string \<Rightarrow> real \<Rightarrow> (unit, ('d, 'a) event) io" where
  "convert_to_ometiff env input_czi output_path scale =
     io_bind (io_call (EvCziFile input_czi) (CziFile env input_czi)) (\<lambda>czi.
     io_bind (assemble_volume env czi scale) (\<lambda>(T, C, Z, Y, X, arr).
     io_call (EvImwrite output_path arr [(''axes'', ''TCZYX'')] True) (imwrite_result env)))"

section \<open>The Imaris converter\<close>

text \<open>Python's decimal rendering of a non-negative integer inside an f-string.\<close>

definition digit_char :: "nat \<Rightarrow> char" where
  "digit_char n = ''0123456789'' ! n"

function str_nat :: "nat \<Rightarrow> string" where
  "str_nat n = (if n < 10 then [digit_char n] else str_nat (n div 10) @ [digit_char (n mod 10)])"
  by pat_completeness auto
termination
  by (relation "measure id") auto

declare str_nat.simps [simp del]

definition set_channel_name :: "parameters \<Rightarrow> nat \<Rightarrow> string \<Rightarrow> parameters" where
  "set_channel_name p ci name = Parameters (AList.update ci name (channel_names p))"

definition set_base_color :: "color_info \<Rightarrow> color \<Rightarrow> color_info" where
  "set_base_color col k = ColorInfo (Some k)"

definition base_rgbs :: "(nat \<times> nat \<times> nat) list" where
  "base_rgbs = [(1, 0, 0), (0, 1, 0), (0, 0, 1), (1, 1, 0)]"

text \<open>Lines 121-124: the parameters object after the channel-name loop.\<close>

definition channel_params :: "nat \<Rightarrow> parameters" where
  "channel_params C =
     fold (\<lambda>ci params. set_channel_name params ci (''Channel '' @ str_nat ci)) [0..<C]
       (Parameters [])"

text \<open>Lines 127-132: the list \<open>color_infos\<close> after the colour loop.\<close>

definition channel_colors :: "nat \<Rightarrow> color_info list" where
  "channel_colors C =
     fold (\<lambda>ci color_infos.
             (case base_rgbs ! (ci mod length base_rgbs) of (r, g, b) \<Rightarrow>
                color_infos @ [set_base_color (ColorInfo None) (Color (real r) (real g) (real b) 1)]))
       [0..<C] []"

text \<open>
  Lines 86-90. The prompts end in the micro sign, U+00B5, written here in UTF-8. All three
  dialogs are shown before the answers are inspected.
\<close>

definition prompt_for :: "string \<Rightarrow> string" where
  "prompt_for axis = axis @ '' ('' @ [CHR 0xC2, CHR 0xB5] @ ''m):''"

definition ask_voxel_sizes :: "('d, 'a) env \<Rightarrow> (real \<times> real \<times> real, ('d, 'a) event) io" where
  "ask_voxel_sizes env =
     io_bind (io_call (EvAskFloat ''Voxel Size'' (prompt_for ''X'') 1)
                (Inr (askfloat env ''Voxel Size'' (prompt_for ''X'') 1))) (\<lambda>vx.
     io_bind (io_call (EvAskFloat ''Voxel Size'' (prompt_for ''Y'') 1)
                (Inr (askfloat env ''Voxel Size'' (prompt_for ''Y'') 1))) (\<lambda>vy.
     io_bind (io_call (EvAskFloat ''Voxel Size'' (prompt_for ''Z'') 1)
                (Inr (askfloat env ''Voxel Size'' (prompt_for ''Z'') 1))) (\<lambda>vz.
     if vx = None \<or> vy = None \<or> vz = None
     then io_raise (RuntimeError ''Voxel size entry cancelled.'')
     else io_ret (the vx, the vy, the vz))))"

text \<open>
  \<open>PW.ImageSize()\<close> without arguments. The class belongs to the external writer library;
  its defaults are taken from the specification ("block index zero").
\<close>

definition ImageSize_default :: image_size where
  "ImageSize_default = ImageSize 0 0 0 0 0"

text \<open>
  Lines 93-139. The constructors of the writer library (\<open>ImageSize\<close>, \<open>Options\<close>,
  \<open>Parameters\<close>, \<open>Color\<close>, \<open>ImageExtents\<close>, the colour class found at import) build
  values and do not raise; the four calls on the converter are the events. The
  \<open>ProgressCallback()\<close> argument of \<open>ImageConverter\<close> only prints and is left out of the
  event. The physical extents multiply a float by an integer; the rounding of that product
  is not modelled.
\<close>

definition write_ims ::
  "('d, 'a) env \<Rightarrow> string \<Rightarrow> nat \<Rightarrow> nat \<Rightarrow> nat \<Rightarrow> nat \<Rightarrow> nat \<Rightarrow> ('d, 'a) ndarray
     \<Rightarrow> real \<Rightarrow> real \<Rightarrow> real \<Rightarrow> (unit, ('d, 'a) event) io" where
  "write_ims env output_path T C Z Y X arr vx vy vz =
     (let image_size = ImageSize X Y Z C T;
          dim_seq = [''x'', ''y'', ''z'', ''c'', ''t''];
          block_size = image_size;
          sample_size = ImageSize 1 1 1 1 1;
          options = Options
      in
      io_bind (io_call (EvImageConverter (dtype_str env (dtype arr)) image_size sample_size
                          dim_seq block_size output_path options ''CZI2IMS'' ''1.0'')
                 (ImageConverter_result env)) (\<lambda>conv.
      let flat = ravel_C arr;
          idx = ImageSize_default
      in
      io_bind (io_call (EvCopyBlock flat idx) (CopyBlock_result env)) (\<lambda>copied.
      let params = channel_params C;
          time_infos = [now env];
          color_infos = channel_colors C;
          image_extents = ImageExtents 0 0 0 (vx * real X) (vy * real Y) (vz * real Z);
          adjust_color_range = True
      in
      io_bind (io_call (EvFinish image_extents params time_infos color_infos adjust_color_range)
                 (Finish_result env)) (\<lambda>finished.
      io_call EvDestroy (Destroy_result env)))))"

definition convert_to_ims ::
  "('d, 'a::zero) env \<Rightarrow> string \<Rightarrow> string \<Rightarrow> real \<Rightarrow> (unit, ('d, 'a) event) io" where
  "convert_to_ims env input_czi output_path scale =
     (if \<not> IMARIS_AVAILABLE env
      then io_raise (RuntimeError ''PyImarisWriter unavailable; cannot write .ims'')
      else
        io_bind (io_call (EvCziFile input_czi) (CziFile env input_czi)) (\<lambda>czi.
        io_bind (assemble_volume env czi scale) (\<lambda>(T, C, Z, Y, X, arr).
        io_bind (ask_voxel_sizes env) (\<lambda>(vx, vy, vz).
        write_ims env output_path T C Z Y X arr vx vy vz))))"

section \<open>Vocabulary of the statements\<close>

text \<open>
  The triples in the order of three nested \<open>range\<close> loops, \<open>t\<close> outermost and \<open>z\<close>
  innermost.
\<close>

definition triples :: "nat \<Rightarrow> nat \<Rightarrow> nat \<Rightarrow> (nat \<times> nat \<times> nat) list" where
  "triples T C Z = [(t, c, z). t \<leftarrow> [0..<T], c \<leftarrow> [0..<C], z \<leftarrow> [0..<Z]]"

text \<open>Every numpy array holds as many elements as its shape says.\<close>

definition wf_ndarray :: "('d, 'a) ndarray \<Rightarrow> bool" where
  "wf_ndarray a = (length (data a) = prod_list (shape a))"

definition wf_source :: "('d, 'a) czi_file \<Rightarrow> real \<Rightarrow> bool" where
  "wf_source czi scale = (\<forall>t c z a. read_mosaic czi t c z scale = Inr a \<longrightarrow> wf_ndarray a)"

text \<open>
  What the loop body stores for a triple when it succeeds, and when it succeeds: the first
  \<open>Y * X\<close> elements of the mosaic read for that triple, converted to the dtype \<open>dt\<close>.
\<close>

definition first_plane :: "('d, 'a) env \<Rightarrow> ('d, 'a) czi_file \<Rightarrow> real \<Rightarrow> nat \<Rightarrow> nat \<Rightarrow> 'd
    \<Rightarrow> nat \<times> nat \<times> nat \<Rightarrow> 'a list" where
  "first_plane env czi scale Y X dt q =
     (case q of (t, c, z) \<Rightarrow>
       (case read_mosaic czi t c z scale of
          Inl e \<Rightarrow> []
        | Inr mos \<Rightarrow> map (cast_to env (dtype mos) dt) (take (Y * X) (data mos))))"

definition plane_ok :: "('d, 'a) czi_file \<Rightarrow> real \<Rightarrow> nat \<Rightarrow> nat \<Rightarrow> nat \<times> nat \<times> nat \<Rightarrow> bool" where
  "plane_ok czi scale Y X q =
     (case q of (t, c, z) \<Rightarrow>
       (case read_mosaic czi t c z scale of
          Inl e \<Rightarrow> False
        | Inr mos \<Rightarrow> Y * X \<noteq> 0 \<and> prod_list (shape mos) mod (Y * X) = 0
                     \<and> prod_list (shape mos) div (Y * X) \<noteq> 0))"

text \<open>The calls into the Imaris writer among the events.\<close>

fun writer_event :: "('d, 'a) event \<Rightarrow> bool" where
  "writer_event (EvImageConverter dt img smp sq blk path opts app ver) = True"
| "writer_event (EvCopyBlock flat idx) = True"
| "writer_event (EvFinish ext params tms colors adj) = True"
| "writer_event EvDestroy = True"
| "writer_event ev = False"

definition ask_events :: "('d, 'a) event list" where
  "ask_events =
     [EvAskFloat ''Voxel Size'' (prompt_for ''X'') 1,
      EvAskFloat ''Voxel Size'' (prompt_for ''Y'') 1,
      EvAskFloat ''Voxel Size'' (prompt_for ''Z'') 1]"

section \<open>A small source and its environment\<close>

text \<open>
  A file with two channels and two slices and no time axis; each mosaic comes with a
  leading singleton axis, one row and two columns. The three arguments of \<open>demo_env\<close> are
  the answers to the voxel-size dialogs.
\<close>

definition demo_czi :: "(string, nat) czi_file" where
  "demo_czi =
     \<lparr>dims = ''CZYX'', size_czi = [2, 2, 1, 2],
      read_mosaic = (\<lambda>t c z s.
        if t = 0 \<and> c < 2 \<and> z < 2
        then Inr \<lparr>shape = [1, 1, 2], dtype = ''uint16'', data = [10 * c + z + 1, 10 * c + z + 5]\<rparr>
        else Inl (ExternalError ''no such plane''))\<rparr>"

definition demo_env :: "real option \<Rightarrow> real option \<Rightarrow> real option \<Rightarrow> (string, nat) env" where
  "demo_env ax ay az =
     \<lparr>IMARIS_AVAILABLE = True,
      CziFile = (\<lambda>p. if p = ''in.czi'' then Inr demo_czi else Inl (ExternalError ''cannot open'')),
      astype = (\<lambda>d v. v),
      dtype_str = (\<lambda>d. d),
      askfloat = (\<lambda>title prompt initial.
        if prompt = prompt_for ''X'' then ax else if prompt = prompt_for ''Y'' then ay else az),
      imwrite_result = Inr (),
      ImageConverter_result = Inr (),
      CopyBlock_result = Inr (),
      Finish_result = Inr (),
      Destroy_result = Inr (),
      now = 0\<rparr>"


text \<open>
  Three sources whose reads all succeed but whose second slice is not a plane like the
  sample: one of twice the rows, one of three columns instead of two, one of a wider
  dtype. \<open>demo_env_trunc\<close> converts to \<open>uint8\<close> as numpy does, modulo 256.
\<close>

definition czi_big :: "(string, nat) czi_file" where
  "czi_big =
     \<lparr>dims = ''ZYX'', size_czi = [2, 1, 2],
      read_mosaic = (\<lambda>t c z s.
        if z = 1 then Inr \<lparr>shape = [2, 2], dtype = ''uint16'', data = [7, 8, 9, 10]\<rparr>
        else Inr \<lparr>shape = [1, 2], dtype = ''uint16'', data = [1, 2]\<rparr>)\<rparr>"

definition czi_odd :: "(string, nat) czi_file" where
  "czi_odd =
     \<lparr>dims = ''ZYX'', size_czi = [2, 1, 2],
      read_mosaic = (\<lambda>t c z s.
        if z = 1 then Inr \<lparr>shape = [1, 3], dtype = ''uint16'', data = [7, 8, 9]\<rparr>
        else Inr \<lparr>shape = [1, 2], dtype = ''uint16'', data = [1, 2]\<rparr>)\<rparr>"

definition czi_dt :: "(string, nat) czi_file" where
  "czi_dt =
     \<lparr>dims = ''ZYX'', size_czi = [2, 1, 2],
      read_mosaic = (\<lambda>t c z s.
        if z = 1 then Inr \<lparr>shape = [1, 2], dtype = ''uint16'', data = [300, 8]\<rparr>
        else Inr \<lparr>shape = [1, 2], dtype = ''uint8'', data = [1, 2]\<rparr>)\<rparr>"

definition demo_env_trunc :: "(string, nat) env" where
  "demo_env_trunc =
     (demo_env None None None)
       \<lparr>astype := (\<lambda>d v. if d = ''uint8'' then v mod 256 else v)\<rparr>"

section \<open>Auxiliary facts\<close>

lemma io_bind_ret_left: "io_bind (io_ret v) f = f v"
  by (simp add: io_bind_def io_ret_def split: prod.splits)

lemma io_bind_ret_right: "io_bind m io_ret = m"
  by (simp add: io_bind_def io_ret_def split: prod.splits sum.splits)

lemma io_bind_assoc: "io_bind (io_bind m f) g = io_bind m (\<lambda>v. io_bind (f v) g)"
  by (simp add: io_bind_def split: prod.splits sum.splits)

lemma io_bind_Inr_iff:
  "io_bind m f = (Inr w, tr) \<longleftrightarrow>
     (\<exists>v tr1 tr2. m = (Inr v, tr1) \<and> f v = (Inr w, tr2) \<and> tr = tr1 @ tr2)"
  by (cases m) (auto simp: io_bind_def split: prod.splits sum.splits)

lemma for_each_append_fun:
  "for_each (xs @ ys) body = (\<lambda>st. io_bind (for_each xs body st) (for_each ys body))"
proof (induction xs)
  case Nil
  show ?case by (simp add: fun_eq_iff io_bind_ret_left)
next
  case (Cons a xs)
  show ?case by (rule ext) (simp add: Cons.IH io_bind_assoc)
qed

lemma for_each_append:
  "for_each (xs @ ys) body st = io_bind (for_each xs body st) (for_each ys body)"
  by (simp add: for_each_append_fun)

lemma for_each_map_fun: "for_each (map f xs) body = for_each xs (\<lambda>i. body (f i))"
proof (induction xs)
  case Nil
  show ?case by (simp add: fun_eq_iff)
next
  case (Cons a xs)
  show ?case by (rule ext) (simp add: Cons.IH)
qed

lemma for_each_map: "for_each (map f xs) body st = for_each xs (\<lambda>i. body (f i)) st"
  by (simp add: for_each_map_fun)

lemma for_each_nest:
  "for_each xs (\<lambda>i. for_each (g i) (h i)) st =
     for_each (concat (map (\<lambda>i. map (Pair i) (g i)) xs)) (\<lambda>(i, j). h i j) st"
proof (induction xs arbitrary: st)
  case Nil
  then show ?case by simp
next
  case (Cons i xs)
  have "for_each xs (\<lambda>i. for_each (g i) (h i)) =
        for_each (concat (map (\<lambda>i. map (Pair i) (g i)) xs)) (\<lambda>(i, j). h i j)"
    using Cons.IH by (intro ext)
  then show ?case
    by (simp add: for_each_append for_each_map)
qed

lemma fill_volume_flat:
  "fill_volume env czi scale T C Z Y X arr =
     for_each (triples T C Z) (\<lambda>(t, c, z). copy_plane env czi scale Y X t c z) arr"
proof -
  have inner: "\<And>t. for_each [0..<C] (\<lambda>c. for_each [0..<Z] (\<lambda>z. copy_plane env czi scale Y X t c z)) =
     for_each (concat (map (\<lambda>c. map (Pair c) [0..<Z]) [0..<C])) (\<lambda>(c, z). copy_plane env czi scale Y X t c z)"
    by (intro ext) (rule for_each_nest)
  have "fill_volume env czi scale T C Z Y X arr =
     for_each (concat (map (\<lambda>t. map (Pair t) (concat (map (\<lambda>c. map (Pair c) [0..<Z]) [0..<C]))) [0..<T]))
        (\<lambda>(t, c, z). copy_plane env czi scale Y X t c z) arr"
    unfolding fill_volume_def inner
    using for_each_nest [where g = "\<lambda>_. concat (map (\<lambda>c. map (Pair c) [0..<Z]) [0..<C])"
            and h = "\<lambda>t (c, z). copy_plane env czi scale Y X t c z" and xs = "[0..<T]" and st = arr]
    by (simp add: split_def)
  also have "concat (map (\<lambda>t. map (Pair t) (concat (map (\<lambda>c. map (Pair c) [0..<Z]) [0..<C]))) [0..<T])
     = triples T C Z"
    by (simp add: triples_def map_concat comp_def)
  finally show ?thesis .
qed

lemma set_triples: "set (triples T C Z) = {(t, c, z). t < T \<and> c < C \<and> z < Z}"
  by (force simp: triples_def)

lemma length_write_at:
  "off + length p \<le> length xs \<Longrightarrow> length (write_at off p xs) = length xs"
  by (simp add: write_at_def)

lemma slice_write_at_same:
  "off + length p \<le> length xs \<Longrightarrow> take (length p) (drop off (write_at off p xs)) = p"
  by (simp add: write_at_def)

lemma slice_write_at_other:
  assumes "off + length p \<le> length xs" and "off' + n \<le> off \<or> off + length p \<le> off'"
  shows "take n (drop off' (write_at off p xs)) = take n (drop off' xs)"
proof (rule nth_equalityI)
  show "length (take n (drop off' (write_at off p xs))) = length (take n (drop off' xs))"
    using assms by (simp add: length_write_at)
next
  fix i assume "i < length (take n (drop off' (write_at off p xs)))"
  then have "i < n \<and> i < length xs - off'"
    using assms by (simp add: length_write_at)
  then have i: "i < n" "off' + i < length xs"
    by auto
  have "write_at off p xs ! (off' + i) = xs ! (off' + i)"
    using assms i by (auto simp: write_at_def nth_append)
  then show "take n (drop off' (write_at off p xs)) ! i = take n (drop off' xs) ! i"
    using assms i by (simp add: length_write_at)
qed

lemma pair_index_less:
  assumes "a < A" "b < (B::nat)"
  shows "a * B + b < A * B"
proof -
  have "a * B + b < Suc a * B" using assms by simp
  also have "\<dots> \<le> A * B" using assms by (intro mult_le_mono1) simp
  finally show ?thesis .
qed

lemma pair_index_inj:
  assumes "b < (B::nat)" "b' < B" "a * B + b = a' * B + b'"
  shows "a = a' \<and> b = b'"
proof -
  have "(a * B + b) div B = a" "(a' * B + b') div B = a'"
       "(a * B + b) mod B = b" "(a' * B + b') mod B = b'"
    using assms(1,2) by simp_all
  then show ?thesis using assms(3) by metis
qed

lemma lin_less:
  assumes "t < T" "c < C" "z < (Z::nat)"
  shows "(t * C + c) * Z + z < T * C * Z"
  by (intro pair_index_less assms)

lemma lin_inj:
  assumes "c < C" "z < (Z::nat)" "c' < C" "z' < Z"
    and "(t * C + c) * Z + z = (t' * C + c') * Z + z'"
  shows "t = t' \<and> c = c' \<and> z = z'"
  using assms pair_index_inj [of z Z z' "t * C + c" "t' * C + c'"] pair_index_inj [of c C c' t t']
  by blast

lemma copy_plane_eq:
  assumes "shape arr = [T, C, Z, Y, X]"
  shows "copy_plane env czi scale Y X t c z arr =
    (case read_mosaic czi t c z scale of
       Inl e \<Rightarrow> Inl e
     | Inr mos \<Rightarrow>
         if Y * X = 0 \<or> prod_list (shape mos) mod (Y * X) \<noteq> 0 then Inl ValueError
         else if prod_list (shape mos) div (Y * X) = 0 then Inl IndexError
         else if t < T \<and> c < C \<and> z < Z then
           Inr (arr\<lparr>data := write_at (plane_offset C Z Y X t c z)
                  (map (cast_to env (dtype mos) (dtype arr)) (take (Y * X) (data mos)))
                  (data arr)\<rparr>)
         else Inl IndexError,
     [EvReadMosaic t c z scale])"
  using assms
  by (simp add: copy_plane_def io_bind_def io_call_def io_lift_def reshape_m1_def
      getitem0_def setitem3_def Let_def split: sum.splits)

lemma copy_plane_Inr:
  assumes "copy_plane env czi scale Y X t c z arr = (Inr arr', tr)"
    and "shape arr = [T, C, Z, Y, X]"
  shows "tr = [EvReadMosaic t c z scale] \<and> t < T \<and> c < C \<and> z < Z
    \<and> plane_ok czi scale Y X (t, c, z)
    \<and> arr' = arr\<lparr>data := write_at (plane_offset C Z Y X t c z)
                  (first_plane env czi scale Y X (dtype arr) (t, c, z)) (data arr)\<rparr>"
  using assms(1) unfolding copy_plane_eq [OF assms(2)]
  by (auto simp: first_plane_def plane_ok_def split: sum.splits if_splits)

lemma nd_slice3_eq:
  "shape arr = [T, C, Z, Y, X] \<Longrightarrow>
   nd_slice3 arr t c z = take (Y * X) (drop (plane_offset C Z Y X t c z) (data arr))"
  by (simp add: nd_slice3_def)

lemma length_first_plane:
  assumes "wf_source czi scale" "plane_ok czi scale Y X q"
  shows "length (first_plane env czi scale Y X dt q) = Y * X"
proof -
  obtain t c z where q: "q = (t, c, z)" by (cases q)
  from assms(2) q obtain mos where mos: "read_mosaic czi t c z scale = Inr mos"
    and nz: "Y * X \<noteq> 0" and dv: "prod_list (shape mos) mod (Y * X) = 0"
    and q0: "prod_list (shape mos) div (Y * X) \<noteq> 0"
    by (auto simp: plane_ok_def split: sum.splits)
  have "length (data mos) = prod_list (shape mos)"
    using assms(1) mos by (auto simp: wf_source_def wf_ndarray_def)
  moreover have "Y * X \<le> prod_list (shape mos)"
    using q0 nz by (metis div_less linorder_not_less)
  ultimately show ?thesis using q mos by (simp add: first_plane_def)
qed

lemma plane_end_le:
  assumes "t < T" "c < C" "z < (Z::nat)"
  shows "plane_offset C Z Y X t c z + Y * X \<le> T * C * Z * (Y * X)"
proof -
  have "Suc ((t * C + c) * Z + z) \<le> T * C * Z"
    using lin_less [OF assms] by simp
  then have "Suc ((t * C + c) * Z + z) * (Y * X) \<le> T * C * Z * (Y * X)"
    by (rule mult_le_mono1)
  then show ?thesis by (simp add: plane_offset_def)
qed

lemma planes_disjoint:
  assumes "c < C" "z < (Z::nat)" "c' < C" "z' < Z" "(t, c, z) \<noteq> (t', c', z')"
  shows "plane_offset C Z Y X t' c' z' + Y * X \<le> plane_offset C Z Y X t c z
       \<or> plane_offset C Z Y X t c z + Y * X \<le> plane_offset C Z Y X t' c' z'"
proof -
  let ?i = "(t * C + c) * Z + z" and ?j = "(t' * C + c') * Z + z'"
  have "?i \<noteq> ?j" using lin_inj [OF assms(1-4)] assms(5) by blast
  then consider "Suc ?j \<le> ?i" | "Suc ?i \<le> ?j" by linarith
  then show ?thesis
  proof cases
    case 1
    then have "Suc ?j * (Y * X) \<le> ?i * (Y * X)" by (rule mult_le_mono1)
    then show ?thesis by (simp add: plane_offset_def)
  next
    case 2
    then have "Suc ?i * (Y * X) \<le> ?j * (Y * X)" by (rule mult_le_mono1)
    then show ?thesis by (simp add: plane_offset_def)
  qed
qed

lemma fill_triples_Inr:
  assumes "wf_source czi scale"
    and "for_each ts (\<lambda>(t, c, z). copy_plane env czi scale Y X t c z) arr = (Inr arr', tr)"
    and "shape arr = [T, C, Z, Y, X]" and "length (data arr) = T * C * Z * (Y * X)"
  shows "tr = map (\<lambda>(t, c, z). EvReadMosaic t c z scale) ts
    \<and> shape arr' = [T, C, Z, Y, X] \<and> dtype arr' = dtype arr
    \<and> length (data arr') = T * C * Z * (Y * X)
    \<and> (\<forall>q \<in> set ts. plane_ok czi scale Y X q)
    \<and> (\<forall>t c z. t < T \<longrightarrow> c < C \<longrightarrow> z < Z \<longrightarrow>
          nd_slice3 arr' t c z =
            (if (t, c, z) \<in> set ts then first_plane env czi scale Y X (dtype arr) (t, c, z)
             else nd_slice3 arr t c z))"
  using assms(2-4)
proof (induction ts arbitrary: arr tr)
  case Nil
  then show ?case by (simp add: io_ret_def)
next
  case (Cons q ts)
  obtain t c z where q: "q = (t, c, z)" by (cases q)
  from Cons.prems(1) obtain arr1 tr1 tr2 where
    step: "copy_plane env czi scale Y X t c z arr = (Inr arr1, tr1)"
    and rest: "for_each ts (\<lambda>(t, c, z). copy_plane env czi scale Y X t c z) arr1 = (Inr arr', tr2)"
    and tr: "tr = tr1 @ tr2"
    by (auto simp: q io_bind_Inr_iff)
  let ?p = "first_plane env czi scale Y X (dtype arr) (t, c, z)"
  let ?off = "plane_offset C Z Y X t c z"
  from copy_plane_Inr [OF step Cons.prems(2)] have
    tr1: "tr1 = [EvReadMosaic t c z scale]" and rng: "t < T" "c < C" "z < Z"
    and ok: "plane_ok czi scale Y X (t, c, z)"
    and arr1: "arr1 = arr\<lparr>data := write_at ?off ?p (data arr)\<rparr>"
    by auto
  have lp: "length ?p = Y * X" using assms(1) ok by (rule length_first_plane)
  have fits: "?off + length ?p \<le> length (data arr)"
    using plane_end_le [OF rng] lp Cons.prems(3) by simp
  have sh1: "shape arr1 = [T, C, Z, Y, X]" using arr1 Cons.prems(2) by simp
  have len1: "length (data arr1) = T * C * Z * (Y * X)"
    using arr1 fits Cons.prems(3) by (simp add: length_write_at)
  have dt1: "dtype arr1 = dtype arr" using arr1 by simp
  have d1: "data arr1 = write_at ?off ?p (data arr)" using arr1 by simp
  note IH = Cons.IH [OF rest sh1 len1]
  have slice1: "nd_slice3 arr1 t' c' z' =
      (if (t', c', z') = (t, c, z) then ?p else nd_slice3 arr t' c' z')"
    if "t' < T" "c' < C" "z' < Z" for t' c' z'
  proof (cases "(t', c', z') = (t, c, z)")
    case True
    then show ?thesis
      using slice_write_at_same [OF fits] lp
      by (simp add: nd_slice3_eq [OF sh1] d1)
  next
    case False
    have "?off + length ?p \<le> plane_offset C Z Y X t' c' z'
        \<or> plane_offset C Z Y X t' c' z' + Y * X \<le> ?off"
    proof -
      have "(t, c, z) \<noteq> (t', c', z')" using False by auto
      from planes_disjoint [OF rng(2,3) that(2,3) this, of Y X] show ?thesis
        unfolding lp by blast
    qed
    then have "take (Y * X) (drop (plane_offset C Z Y X t' c' z') (write_at ?off ?p (data arr)))
        = take (Y * X) (drop (plane_offset C Z Y X t' c' z') (data arr))"
      using slice_write_at_other [OF fits] by blast
    then show ?thesis
      using False by (auto simp: nd_slice3_eq [OF sh1] nd_slice3_eq [OF Cons.prems(2)] d1)
  qed
  show ?case
    using IH tr tr1 ok slice1 dt1 by (auto simp: q)
qed

lemma snd_io_bind:
  "snd (io_bind m f) = snd m @ (case fst m of Inl e \<Rightarrow> [] | Inr v \<Rightarrow> snd (f v))"
  by (cases m) (simp add: io_bind_def split: sum.splits prod.splits)

lemma fst_io_bind:
  "fst (io_bind m f) = (case fst m of Inl e \<Rightarrow> Inl e | Inr v \<Rightarrow> fst (f v))"
  by (cases m) (simp add: io_bind_def split: sum.splits prod.splits)

lemma for_each_events:
  assumes "\<And>i st. i \<in> set xs \<Longrightarrow> \<forall>ev \<in> set (snd (body i st)). P ev"
  shows "\<forall>ev \<in> set (snd (for_each xs body st)). P ev"
  using assms
proof (induction xs arbitrary: st)
  case Nil
  then show ?case by (simp add: io_ret_def)
next
  case (Cons i xs)
  have tl: "\<forall>ev \<in> set (snd (for_each xs body st')). P ev" for st'
    using Cons.prems by (intro Cons.IH) auto
  have hd: "\<forall>ev \<in> set (snd (body i st)). P ev"
    by (rule Cons.prems) simp
  show ?case
    using hd tl by (auto simp: snd_io_bind split: sum.splits)
qed


lemma snd_copy_plane: "snd (copy_plane env czi scale Y X t c z arr) = [EvReadMosaic t c z scale]"
  by (simp add: copy_plane_def snd_io_bind io_call_def io_lift_def split: sum.splits)

lemma fill_volume_events:
  "\<forall>ev \<in> set (snd (fill_volume env czi scale T C Z Y X arr)). \<exists>t c z. ev = EvReadMosaic t c z scale"
  unfolding fill_volume_flat
  by (rule for_each_events) (auto simp: snd_copy_plane)

lemma assemble_volume_events:
  "\<forall>ev \<in> set (snd (assemble_volume env czi scale)). \<exists>t c z. ev = EvReadMosaic t c z scale"
  using fill_volume_events [of env czi scale]
  by (auto simp: assemble_volume_def snd_io_bind io_call_def io_lift_def io_ret_def
      split: sum.splits prod.splits)

lemma fill_triples_trace:
  assumes "for_each ts (\<lambda>(t, c, z). copy_plane env czi scale Y X t c z) arr = (Inr arr', tr)"
    and "shape arr = [T, C, Z, Y, X]"
  shows "tr = map (\<lambda>(t, c, z). EvReadMosaic t c z scale) ts
    \<and> shape arr' = [T, C, Z, Y, X] \<and> dtype arr' = dtype arr
    \<and> (\<forall>q \<in> set ts. plane_ok czi scale Y X q)"
  using assms
proof (induction ts arbitrary: arr tr)
  case Nil
  then show ?case by (simp add: io_ret_def)
next
  case (Cons q ts)
  obtain t c z where q: "q = (t, c, z)" by (cases q)
  from Cons.prems(1) obtain arr1 tr1 tr2 where
    step: "copy_plane env czi scale Y X t c z arr = (Inr arr1, tr1)"
    and rest: "for_each ts (\<lambda>(t, c, z). copy_plane env czi scale Y X t c z) arr1 = (Inr arr', tr2)"
    and tr: "tr = tr1 @ tr2"
    by (auto simp: q io_bind_Inr_iff)
  from copy_plane_Inr [OF step Cons.prems(2)] have
    tr1: "tr1 = [EvReadMosaic t c z scale]"
    and ok: "plane_ok czi scale Y X (t, c, z)"
    and sh1: "shape arr1 = [T, C, Z, Y, X]" and dt1: "dtype arr1 = dtype arr"
    using Cons.prems(2) by auto
  show ?case
    using Cons.IH [OF rest sh1] tr tr1 ok dt1 by (auto simp: q)
qed

lemma io_call_Inr_iff: "io_call ev r = (Inr v, tr) \<longleftrightarrow> r = Inr v \<and> tr = [ev]"
  by (auto simp: io_call_def)

lemma io_lift_Inr_iff: "io_lift r = (Inr v, tr) \<longleftrightarrow> r = Inr v \<and> tr = []"
  by (auto simp: io_lift_def)

lemma io_ret_Inr_iff: "io_ret w = (Inr v, tr) \<longleftrightarrow> w = v \<and> tr = []"
  by (auto simp: io_ret_def)

lemma assemble_volume_Inr:
  assumes "assemble_volume env czi scale = (Inr (T, C, Z, Y, X, arr), tr)"
  shows "\<exists>sample tr'. probe_extents czi = (T, C, Z)
      \<and> read_mosaic czi 0 0 0 scale = Inr sample
      \<and> shape_neg (shape sample) 2 = Inr Y \<and> shape_neg (shape sample) 1 = Inr X
      \<and> fill_volume env czi scale T C Z Y X (np_zeros [T, C, Z, Y, X] (dtype sample))
           = (Inr arr, tr')
      \<and> tr = EvReadMosaic 0 0 0 scale # tr'"
  using assms
  by (auto simp: assemble_volume_def io_bind_Inr_iff io_call_Inr_iff io_lift_Inr_iff
      io_ret_Inr_iff split: prod.splits)

lemma demo_probe: "probe_extents demo_czi = (1, 2, 2)"
  by (simp add: probe_extents_def demo_czi_def dict_of_def dict_get_def)

lemma upt_Suc_numeral: "[Suc m..<numeral n] = (if Suc m < numeral n then Suc m # [Suc (Suc m)..<numeral n] else [])"
  by (simp add: upt_rec)

lemma demo_assemble:
  "assemble_volume (demo_env ax ay az) demo_czi 1 =
     (Inr (1, 2, 2, 1, 2, \<lparr>shape = [1, 2, 2, 1, 2], dtype = ''uint16'',
                           data = [1, 5, 2, 6, 11, 15, 12, 16]\<rparr>),
      [EvReadMosaic 0 0 0 1, EvReadMosaic 0 0 0 1, EvReadMosaic 0 0 1 1,
       EvReadMosaic 0 1 0 1, EvReadMosaic 0 1 1 1])"
  unfolding assemble_volume_def demo_probe
  by (simp add: fill_volume_def upt_rec [of 0] upt_Suc_numeral
      copy_plane_def io_bind_def io_call_def io_lift_def io_ret_def demo_czi_def
      shape_neg_def np_zeros_def reshape_m1_def getitem0_def setitem3_def write_at_def
      plane_offset_def cast_to_def Let_def)

lemma ask_voxel_sizes_eq:
  "ask_voxel_sizes env =
     (case (askfloat env ''Voxel Size'' (prompt_for ''X'') 1,
            askfloat env ''Voxel Size'' (prompt_for ''Y'') 1,
            askfloat env ''Voxel Size'' (prompt_for ''Z'') 1) of
        (Some vx, Some vy, Some vz) \<Rightarrow> Inr (vx, vy, vz)
      | _ \<Rightarrow> Inl (RuntimeError ''Voxel size entry cancelled.''),
      ask_events)"
  by (simp add: ask_voxel_sizes_def ask_events_def io_bind_def io_call_def io_raise_def io_ret_def
      split: option.splits)

lemma write_ims_eq:
  "write_ims env output_path T C Z Y X arr vx vy vz =
     (let ev_conv = EvImageConverter (dtype_str env (dtype arr)) (ImageSize X Y Z C T)
                      (ImageSize 1 1 1 1 1) [''x'', ''y'', ''z'', ''c'', ''t''] (ImageSize X Y Z C T)
                      output_path Options ''CZI2IMS'' ''1.0'';
          ev_copy = EvCopyBlock (data arr) (ImageSize 0 0 0 0 0);
          ev_fin = EvFinish (ImageExtents 0 0 0 (vx * real X) (vy * real Y) (vz * real Z))
                      (channel_params C) [now env] (channel_colors C) True
      in
      case ImageConverter_result env of
        Inl e \<Rightarrow> (Inl e, [ev_conv])
      | Inr u1 \<Rightarrow>
         (case CopyBlock_result env of
            Inl e \<Rightarrow> (Inl e, [ev_conv, ev_copy])
          | Inr u2 \<Rightarrow>
             (case Finish_result env of
                Inl e \<Rightarrow> (Inl e, [ev_conv, ev_copy, ev_fin])
              | Inr u3 \<Rightarrow> (Destroy_result env, [ev_conv, ev_copy, ev_fin, EvDestroy]))))"
  by (simp add: write_ims_def Let_def io_bind_def io_call_def ravel_C_def ImageSize_default_def
      split: sum.splits)

lemma write_ims_all_writer:
  "filter writer_event (snd (write_ims env output_path T C Z Y X arr vx vy vz))
     = snd (write_ims env output_path T C Z Y X arr vx vy vz)"
  by (simp add: write_ims_eq Let_def split: sum.splits)

lemma assemble_no_writer:
  "filter writer_event (snd (assemble_volume env czi scale)) = []"
  using assemble_volume_events [of env czi scale]
  by (auto simp: filter_empty_conv)

lemma ask_no_writer: "filter writer_event (snd (ask_voxel_sizes env)) = []"
  by (simp add: ask_voxel_sizes_eq ask_events_def)

lemma convert_to_ims_writer_events:
  "filter writer_event (snd (convert_to_ims env input_czi output_path scale)) =
     (if IMARIS_AVAILABLE env then
        (case CziFile env input_czi of
           Inl e \<Rightarrow> []
         | Inr czi \<Rightarrow>
            (case fst (assemble_volume env czi scale) of
               Inl e \<Rightarrow> []
             | Inr (T, C, Z, Y, X, arr) \<Rightarrow>
                (case fst (ask_voxel_sizes env) of
                   Inl e \<Rightarrow> []
                 | Inr (vx, vy, vz) \<Rightarrow> snd (write_ims env output_path T C Z Y X arr vx vy vz))))
      else [])"
  by (simp add: convert_to_ims_def snd_io_bind io_call_def io_raise_def assemble_no_writer
      ask_no_writer write_ims_all_writer split: sum.splits prod.splits)

lemma writer_event_mem:
  "writer_event ev \<Longrightarrow> ev \<in> set tr \<longleftrightarrow> ev \<in> set (filter writer_event tr)"
  by simp

lemma fold_snoc_map: "fold (\<lambda>i acc. acc @ [f i]) xs init = init @ map f xs"
  by (induction xs arbitrary: init) auto

lemma channel_colors_map:
  "channel_colors C =
     map (\<lambda>ci. case base_rgbs ! (ci mod length base_rgbs) of (r, g, b) \<Rightarrow>
                  ColorInfo (Some (Color (real r) (real g) (real b) 1))) [0..<C]"
proof -
  have "channel_colors C = fold (\<lambda>ci acc. acc @ [case base_rgbs ! (ci mod length base_rgbs) of (r, g, b) \<Rightarrow>
                  ColorInfo (Some (Color (real r) (real g) (real b) 1))]) [0..<C] []"
    unfolding channel_colors_def set_base_color_def
    by (rule arg_cong [where f = "\<lambda>h. fold h [0..<C] []"]) (auto simp: fun_eq_iff split: prod.splits)
  then show ?thesis by (simp add: fold_snoc_map)
qed

lemma update_fresh: "k \<notin> fst ` set al \<Longrightarrow> AList.update k v al = al @ [(k, v)]"
  by (induction al) auto

lemma channel_params_names:
  "channel_names (channel_params C) = map (\<lambda>ci. (ci, ''Channel '' @ str_nat ci)) [0..<C]"
proof (induction C)
  case 0
  then show ?case by (simp add: channel_params_def)
next
  case (Suc C)
  have "channel_params (Suc C) = set_channel_name (channel_params C) C (''Channel '' @ str_nat C)"
    by (simp add: channel_params_def)
  moreover have "C \<notin> fst ` set (map (\<lambda>ci. (ci, ''Channel '' @ str_nat ci)) [0..<C])"
    by (auto simp: image_iff)
  ultimately show ?case
    using Suc by (simp add: set_channel_name_def update_fresh)
qed

lemma str_nat_12: "str_nat 12 = ''12''"
  by (simp add: str_nat.simps digit_char_def)

lemma plane_ok_D:
  assumes "plane_ok czi scale Y X (t, c, z)"
  shows "\<exists>mos planes plane. read_mosaic czi t c z scale = Inr mos
      \<and> reshape_m1 mos Y X = Inr planes \<and> getitem0 planes = Inr plane
      \<and> shape plane = [Y, X] \<and> dtype plane = dtype mos
      \<and> data plane = take (Y * X) (data mos)
      \<and> first_plane env czi scale Y X dt (t, c, z) = map (cast_to env (dtype mos) dt) (data plane)"
proof -
  from assms obtain mos where mos: "read_mosaic czi t c z scale = Inr mos"
    and nz: "Y * X \<noteq> 0" and dv: "prod_list (shape mos) mod (Y * X) = 0"
    and q0: "prod_list (shape mos) div (Y * X) \<noteq> 0"
    by (auto simp: plane_ok_def split: sum.splits)
  let ?planes = "mos\<lparr>shape := [prod_list (shape mos) div (Y * X), Y, X]\<rparr>"
  let ?plane = "\<lparr>shape = [Y, X], dtype = dtype mos, data = take (Y * X) (data mos)\<rparr>"
  have r: "reshape_m1 mos Y X = Inr ?planes"
    using nz dv by (simp add: reshape_m1_def Let_def)
  have g: "getitem0 ?planes = Inr ?plane"
    using q0 by (simp add: getitem0_def)
  have f: "first_plane env czi scale Y X dt (t, c, z)
             = map (cast_to env (dtype mos) dt) (data ?plane)"
    using mos by (simp add: first_plane_def)
  show ?thesis
    using mos r g f by (intro exI [of _ mos] exI [of _ ?planes] exI [of _ ?plane]) simp
qed

lemma whole_plane:
  assumes "wf_ndarray mos" "shape mos = [Y, X] \<or> shape mos = [1, Y, X]"
  shows "take (Y * X) (data mos) = data mos"
  using assms by (auto simp: wf_ndarray_def)

lemma cast_to_same: "map (cast_to env dt dt) xs = xs"
  by (induction xs) (simp_all add: cast_to_def)

text \<open>
  The assembly does return an array when every read of the range succeeds with a mosaic
  whose size is a positive multiple of \<open>Y * X\<close>, in particular with planes of shape
  \<open>(Y, X)\<close> or \<open>(1, Y, X)\<close>.
\<close>

lemma fill_triples_succeeds:
  assumes "\<forall>q \<in> set ts. plane_ok czi scale Y X q \<and> (case q of (t, c, z) \<Rightarrow> t < T \<and> c < C \<and> z < Z)"
    and "shape arr = [T, C, Z, Y, X]"
  shows "\<exists>arr' tr. for_each ts (\<lambda>(t, c, z). copy_plane env czi scale Y X t c z) arr = (Inr arr', tr)"
  using assms
proof (induction ts arbitrary: arr)
  case Nil
  then show ?case by (simp add: io_ret_def)
next
  case (Cons q ts)
  obtain t c z where q: "q = (t, c, z)" by (cases q)
  from Cons.prems(1) have ok: "plane_ok czi scale Y X (t, c, z)" and rng: "t < T" "c < C" "z < Z"
    by (auto simp: q)
  from ok obtain mos where mos: "read_mosaic czi t c z scale = Inr mos"
    and nz: "Y * X \<noteq> 0" "prod_list (shape mos) mod (Y * X) = 0"
      "prod_list (shape mos) div (Y * X) \<noteq> 0"
    by (auto simp: plane_ok_def split: sum.splits)
  let ?arr1 = "arr\<lparr>data := write_at (plane_offset C Z Y X t c z)
                  (map (cast_to env (dtype mos) (dtype arr)) (take (Y * X) (data mos)))
                  (data arr)\<rparr>"
  have step: "copy_plane env czi scale Y X t c z arr = (Inr ?arr1, [EvReadMosaic t c z scale])"
    using mos nz rng by (simp add: copy_plane_eq [OF Cons.prems(2)])
  have "shape ?arr1 = [T, C, Z, Y, X]" using Cons.prems(2) by simp
  from Cons.IH [OF _ this] Cons.prems(1) obtain arr' tr where
    "for_each ts (\<lambda>(t, c, z). copy_plane env czi scale Y X t c z) ?arr1 = (Inr arr', tr)"
    by auto
  then show ?case
    using step by (simp add: q io_bind_def)
qed

lemma assemble_volume_succeeds:
  assumes "probe_extents czi = (T, C, Z)"
    and "read_mosaic czi 0 0 0 scale = Inr sample"
    and "shape_neg (shape sample) 2 = Inr Y" and "shape_neg (shape sample) 1 = Inr X"
    and "\<forall>t < T. \<forall>c < C. \<forall>z < Z. plane_ok czi scale Y X (t, c, z)"
  shows "\<exists>arr tr. assemble_volume env czi scale = (Inr (T, C, Z, Y, X, arr), tr)"
proof -
  let ?z = "np_zeros [T, C, Z, Y, X] (dtype sample) :: ('a, 'b) ndarray"
  have sh0: "shape ?z = [T, C, Z, Y, X]" by (simp add: np_zeros_def)
  have "\<forall>q \<in> set (triples T C Z).
          plane_ok czi scale Y X q \<and> (case q of (t, c, z) \<Rightarrow> t < T \<and> c < C \<and> z < Z)"
    using assms(5) by (auto simp: set_triples)
  from fill_triples_succeeds [OF this sh0, of env] obtain arr tr' where
    "fill_volume env czi scale T C Z Y X ?z = (Inr arr, tr')"
    unfolding fill_volume_flat by blast
  then show ?thesis
    using assms(1-4)
    by (simp add: assemble_volume_def io_bind_def io_call_def io_lift_def io_ret_def)
qed

lemma uniform_planes_ok:
  assumes "read_mosaic czi t c z scale = Inr mos"
    and "shape mos = [Y, X] \<or> shape mos = [1, Y, X]" and "Y * X \<noteq> 0"
  shows "plane_ok czi scale Y X (t, c, z)"
  using assms by (auto simp: plane_ok_def)

section \<open>The claims\<close>

text \<open>
  What a returned array holds: the shape \<open>(T, C, Z, Y, X)\<close>, the dtype of the sample
  plane, and in every slice the first \<open>Y * X\<close> elements of the mosaic read for its
  triple, converted to the array's dtype.
\<close>

lemma assemble_volume_result:
  assumes "wf_source czi scale"
    and "assemble_volume env czi scale = (Inr (T, C, Z, Y, X, arr), tr)"
  shows "\<exists>sample. probe_extents czi = (T, C, Z)
      \<and> read_mosaic czi 0 0 0 scale = Inr sample
      \<and> shape_neg (shape sample) 2 = Inr Y \<and> shape_neg (shape sample) 1 = Inr X
      \<and> shape arr = [T, C, Z, Y, X] \<and> dtype arr = dtype sample
      \<and> (\<forall>t < T. \<forall>c < C. \<forall>z < Z. \<exists>mos planes plane.
            read_mosaic czi t c z scale = Inr mos
          \<and> reshape_m1 mos Y X = Inr planes \<and> getitem0 planes = Inr plane
          \<and> nd_slice3 arr t c z = map (cast_to env (dtype mos) (dtype sample)) (data plane)
          \<and> (dtype mos = dtype sample \<and> (shape mos = [Y, X] \<or> shape mos = [1, Y, X])
               \<longrightarrow> nd_slice3 arr t c z = data mos))"
proof -
  from assemble_volume_Inr [OF assms(2)] obtain sample tr' where
    pe: "probe_extents czi = (T, C, Z)"
    and rd: "read_mosaic czi 0 0 0 scale = Inr sample"
    and yx: "shape_neg (shape sample) 2 = Inr Y" "shape_neg (shape sample) 1 = Inr X"
    and fill: "fill_volume env czi scale T C Z Y X (np_zeros [T, C, Z, Y, X] (dtype sample))
                 = (Inr arr, tr')"
    by blast
  let ?z = "np_zeros [T, C, Z, Y, X] (dtype sample) :: ('a, 'b) ndarray"
  have sh0: "shape ?z = [T, C, Z, Y, X]" and dt0: "dtype ?z = dtype sample"
    and len0: "length (data ?z) = T * C * Z * (Y * X)"
    by (simp_all add: np_zeros_def)
  note inv = fill_triples_Inr [OF assms(1) fill [unfolded fill_volume_flat] sh0 len0]
  have sh: "shape arr = [T, C, Z, Y, X]" and dt: "dtype arr = dtype sample"
    using inv dt0 by auto
  have "\<exists>mos planes plane.
            read_mosaic czi t c z scale = Inr mos
          \<and> reshape_m1 mos Y X = Inr planes \<and> getitem0 planes = Inr plane
          \<and> nd_slice3 arr t c z = map (cast_to env (dtype mos) (dtype sample)) (data plane)
          \<and> (dtype mos = dtype sample \<and> (shape mos = [Y, X] \<or> shape mos = [1, Y, X])
               \<longrightarrow> nd_slice3 arr t c z = data mos)"
    if rng: "t < T" "c < C" "z < Z" for t c z
  proof -
    have mem: "(t, c, z) \<in> set (triples T C Z)" using rng by (simp add: set_triples)
    then have ok: "plane_ok czi scale Y X (t, c, z)" using inv by blast
    have sl: "nd_slice3 arr t c z = first_plane env czi scale Y X (dtype sample) (t, c, z)"
      using inv rng mem dt0 by simp
    from plane_ok_D [OF ok, of env "dtype sample"] obtain mos planes plane where
      m: "read_mosaic czi t c z scale = Inr mos"
      "reshape_m1 mos Y X = Inr planes" "getitem0 planes = Inr plane"
      "data plane = take (Y * X) (data mos)"
      "first_plane env czi scale Y X (dtype sample) (t, c, z)
         = map (cast_to env (dtype mos) (dtype sample)) (data plane)"
      by blast
    have wf: "wf_ndarray mos" using assms(1) m(1) by (auto simp: wf_source_def)
    have "nd_slice3 arr t c z = data mos"
      if "dtype mos = dtype sample" "shape mos = [Y, X] \<or> shape mos = [1, Y, X]"
      using sl m(4,5) that whole_plane [OF wf that(2)] by (simp add: cast_to_same)
    then show ?thesis using m sl by auto
  qed
  then show ?thesis using pe rd yx sh dt by blast
qed

lemma demo_wf: "wf_source demo_czi 1"
  by (auto simp: wf_source_def wf_ndarray_def demo_czi_def split: if_splits)

lemma assemble_volume_result_demo:
  "wf_source demo_czi 1
   \<and> assemble_volume (demo_env None None None) demo_czi 1 =
       (Inr (1, 2, 2, 1, 2, \<lparr>shape = [1, 2, 2, 1, 2], dtype = ''uint16'',
                             data = [1, 5, 2, 6, 11, 15, 12, 16]\<rparr>),
        [EvReadMosaic 0 0 0 1, EvReadMosaic 0 0 0 1, EvReadMosaic 0 0 1 1,
         EvReadMosaic 0 1 0 1, EvReadMosaic 0 1 1 1])
   \<and> nd_slice3 \<lparr>shape = [1, 2, 2, 1, 2], dtype = ''uint16'',
                  data = [1, 5, 2, 6, 11, 15, 12, 16 :: nat]\<rparr> 0 1 0 = [11, 15]"
proof -
  let ?arr = "\<lparr>shape = [1, 2, 2, 1, 2], dtype = ''uint16'',
                data = [1, 5, 2, 6, 11, 15, 12, 16 :: nat]\<rparr>"
  note run = demo_assemble [of None None None]
  from assemble_volume_result [OF demo_wf run] obtain sample where
    s: "read_mosaic demo_czi 0 0 0 1 = Inr sample"
    and planes: "\<forall>t < 1. \<forall>c < 2. \<forall>z < 2. \<exists>mos planes plane.
            read_mosaic demo_czi t c z 1 = Inr mos
          \<and> reshape_m1 mos 1 2 = Inr planes \<and> getitem0 planes = Inr plane
          \<and> nd_slice3 ?arr t c z = map (cast_to (demo_env None None None) (dtype mos) (dtype sample)) (data plane)
          \<and> (dtype mos = dtype sample \<and> (shape mos = [1, 2] \<or> shape mos = [1, 1, 2])
               \<longrightarrow> nd_slice3 ?arr t c z = data mos)"
    by blast
  from planes have "\<exists>mos. read_mosaic demo_czi 0 1 0 1 = Inr mos
      \<and> (dtype mos = dtype sample \<and> (shape mos = [1, 2] \<or> shape mos = [1, 1, 2])
               \<longrightarrow> nd_slice3 ?arr 0 1 0 = data mos)"
    by (meson zero_less_one one_less_numeral_iff semiring_norm(76) zero_less_numeral)
  then have "nd_slice3 ?arr 0 1 0 = [11, 15]"
    using s by (auto simp: demo_czi_def)
  then show ?thesis using demo_wf run by simp
qed

lemma triples_product: "triples T C Z = List.product [0..<T] (List.product [0..<C] [0..<Z])"
  by (simp add: triples_def product_concat_map map_concat comp_def)

lemma distinct_triples: "distinct (triples T C Z)"
  by (simp add: triples_product distinct_product)

lemma whole_singleton_plane:
  assumes "wf_ndarray mos" "shape mos = [1, Y, X]" "Y * X \<noteq> 0"
  shows "reshape_m1 mos Y X = Inr mos"
    and "getitem0 mos = Inr \<lparr>shape = [Y, X], dtype = dtype mos, data = data mos\<rparr>"
  using assms by (simp_all add: reshape_m1_def getitem0_def wf_ndarray_def Let_def)

lemma assembled_slices:
  assumes "wf_source czi scale"
    and "assemble_volume env czi scale = (Inr (T, C, Z, Y, X, arr), tr)"
    and "t < T" "c < C" "z < Z"
  shows "plane_ok czi scale Y X (t, c, z)"
    and "nd_slice3 arr t c z = first_plane env czi scale Y X (dtype arr) (t, c, z)"
proof -
  from assemble_volume_Inr [OF assms(2)] obtain sample tr' where
    rd: "read_mosaic czi 0 0 0 scale = Inr sample" and
    fill: "fill_volume env czi scale T C Z Y X (np_zeros [T, C, Z, Y, X] (dtype sample))
                 = (Inr arr, tr')"
    by blast
  let ?z = "np_zeros [T, C, Z, Y, X] (dtype sample) :: ('a, 'b) ndarray"
  have sh0: "shape ?z = [T, C, Z, Y, X]"
    and len0: "length (data ?z) = T * C * Z * (Y * X)"
    by (simp_all add: np_zeros_def)
  note inv = fill_triples_Inr [OF assms(1) fill [unfolded fill_volume_flat] sh0 len0]
  have mem: "(t, c, z) \<in> set (triples T C Z)" using assms(3-5) by (simp add: set_triples)
  then show "plane_ok czi scale Y X (t, c, z)" using inv by blast
  show "nd_slice3 arr t c z = first_plane env czi scale Y X (dtype arr) (t, c, z)"
    using inv mem assms(3-5) by simp
qed

text \<open>
  Claim C2. A successful assembly requests, after the sample plane, exactly the planes of
  the triples \<open>(t, c, z)\<close> in the order of the nested loops (\<open>t\<close> outermost, \<open>z\<close>
  innermost), each triple of the range once; a mosaic of shape \<open>(1, Y, X)\<close> is reduced to
  its \<open>(Y, X)\<close> plane, and that plane is what the slice \<open>arr[t, c, z]\<close> receives.
\<close>

theorem volume_assembler_enumeration:
  assumes "wf_source czi scale"
    and "assemble_volume env czi scale = (Inr (T, C, Z, Y, X, arr), tr)"
  shows "tr = EvReadMosaic 0 0 0 scale
             # map (\<lambda>(t, c, z). EvReadMosaic t c z scale)
                 [(t, c, z). t \<leftarrow> [0..<T], c \<leftarrow> [0..<C], z \<leftarrow> [0..<Z]]
      \<and> distinct [(t, c, z). t \<leftarrow> [0..<T], c \<leftarrow> [0..<C], z \<leftarrow> [0..<Z]]
      \<and> set [(t, c, z). t \<leftarrow> [0..<T], c \<leftarrow> [0..<C], z \<leftarrow> [0..<Z]]
           = {(t, c, z). t < T \<and> c < C \<and> z < Z}
      \<and> (\<forall>t < T. \<forall>c < C. \<forall>z < Z. \<forall>mos.
            read_mosaic czi t c z scale = Inr mos \<and> shape mos = [1, Y, X] \<longrightarrow>
              reshape_m1 mos Y X = Inr mos
            \<and> getitem0 mos = Inr \<lparr>shape = [Y, X], dtype = dtype mos, data = data mos\<rparr>
            \<and> nd_slice3 arr t c z = map (cast_to env (dtype mos) (dtype arr)) (data mos))"
proof -
  from assemble_volume_Inr [OF assms(2)] obtain sample tr' where
    rd: "read_mosaic czi 0 0 0 scale = Inr sample" and
    fill: "fill_volume env czi scale T C Z Y X (np_zeros [T, C, Z, Y, X] (dtype sample))
                 = (Inr arr, tr')"
    and tr: "tr = EvReadMosaic 0 0 0 scale # tr'"
    by blast
  let ?z = "np_zeros [T, C, Z, Y, X] (dtype sample) :: ('a, 'b) ndarray"
  have sh0: "shape ?z = [T, C, Z, Y, X]" by (simp add: np_zeros_def)
  note inv = fill_triples_trace [OF fill [unfolded fill_volume_flat] sh0]
  have t1: "tr = EvReadMosaic 0 0 0 scale
             # map (\<lambda>(t, c, z). EvReadMosaic t c z scale) (triples T C Z)"
    using inv tr by simp
  have collapse: "reshape_m1 mos Y X = Inr mos
            \<and> getitem0 mos = Inr \<lparr>shape = [Y, X], dtype = dtype mos, data = data mos\<rparr>
            \<and> nd_slice3 arr t c z = map (cast_to env (dtype mos) (dtype arr)) (data mos)"
    if rng: "t < T" "c < C" "z < Z" and m: "read_mosaic czi t c z scale = Inr mos"
      and s1: "shape mos = [1, Y, X]" for t c z mos
  proof -
    have wf: "wf_ndarray mos" using assms(1) m by (auto simp: wf_source_def)
    have nz: "Y * X \<noteq> 0"
      using assembled_slices(1) [OF assms rng] m by (simp add: plane_ok_def)
    have "nd_slice3 arr t c z = map (cast_to env (dtype mos) (dtype arr)) (take (Y * X) (data mos))"
      using assembled_slices(2) [OF assms rng] m by (simp add: first_plane_def)
    moreover have "take (Y * X) (data mos) = data mos"
      using wf s1 by (simp add: wf_ndarray_def)
    ultimately show ?thesis using whole_singleton_plane [OF wf s1 nz] by simp
  qed
  show ?thesis
    using t1 collapse distinct_triples [of T C Z] set_triples [of T C Z]
    unfolding triples_def by blast
qed

theorem volume_assembler_enumeration_witness:
  "wf_source demo_czi 1
   \<and> assemble_volume (demo_env None None None) demo_czi 1 =
       (Inr (1, 2, 2, 1, 2, \<lparr>shape = [1, 2, 2, 1, 2], dtype = ''uint16'',
                             data = [1, 5, 2, 6, 11, 15, 12, 16]\<rparr>),
        [EvReadMosaic 0 0 0 1, EvReadMosaic 0 0 0 1, EvReadMosaic 0 0 1 1,
         EvReadMosaic 0 1 0 1, EvReadMosaic 0 1 1 1])
   \<and> [EvReadMosaic 0 0 0 1, EvReadMosaic 0 0 0 1, EvReadMosaic 0 0 1 1,
       EvReadMosaic 0 1 0 1, EvReadMosaic 0 1 1 1 :: (string, nat) event]
       = EvReadMosaic 0 0 0 1
           # map (\<lambda>(t, c, z). EvReadMosaic t c z 1)
               [(t, c, z). t \<leftarrow> [0..<1], c \<leftarrow> [0..<2], z \<leftarrow> [0..<2]]
   \<and> distinct [(t, c, z). t \<leftarrow> [0..<1::nat], c \<leftarrow> [0..<2::nat], z \<leftarrow> [0..<2::nat]]"
  using volume_assembler_enumeration [OF demo_wf demo_assemble [of None None None]]
    demo_wf demo_assemble [of None None None]
  by blast





lemma fold_upd_map_of:
  "fold (\<lambda>(k, v) m. m(k \<mapsto> v)) kvs m = m ++ map_of (rev kvs)"
  by (induction kvs arbitrary: m) (auto simp: map_add_def fun_eq_iff split: option.splits)

lemma dict_get_absent: "k \<notin> set ks \<Longrightarrow> dict_get (dict_of (zip ks vs)) k d = d"
proof -
  assume "k \<notin> set ks"
  then have "k \<notin> fst ` set (rev (zip ks vs))"
    by (auto dest: set_zip_leftD)
  then have "map_of (rev (zip ks vs)) k = None"
    by (simp add: map_of_eq_None_iff)
  then show ?thesis
    by (simp add: dict_get_def dict_of_def fold_upd_map_of)
qed

text \<open>
  Claim C10. The assembled array always has five axes, and an acquisition axis whose
  label (\<open>T\<close>, \<open>C\<close> or \<open>Z\<close>) does not occur among the dimension labels of the source has
  extent one.
\<close>

theorem missing_axes_have_extent_one:
  assumes "assemble_volume env czi scale = (Inr (T, C, Z, Y, X, arr), tr)"
  shows "length (shape arr) = 5 \<and> shape arr = [T, C, Z, Y, X]
      \<and> (CHR ''T'' \<notin> set (dims czi) \<longrightarrow> T = 1 \<and> shape arr ! 0 = 1)
      \<and> (CHR ''C'' \<notin> set (dims czi) \<longrightarrow> C = 1 \<and> shape arr ! 1 = 1)
      \<and> (CHR ''Z'' \<notin> set (dims czi) \<longrightarrow> Z = 1 \<and> shape arr ! 2 = 1)"
proof -
  from assemble_volume_Inr [OF assms] obtain sample tr' where
    pe: "probe_extents czi = (T, C, Z)"
    and rd: "read_mosaic czi 0 0 0 scale = Inr sample"
    and fill: "fill_volume env czi scale T C Z Y X (np_zeros [T, C, Z, Y, X] (dtype sample))
                 = (Inr arr, tr')"
    by blast
  let ?z = "np_zeros [T, C, Z, Y, X] (dtype sample) :: ('a, 'b) ndarray"
  have sh0: "shape ?z = [T, C, Z, Y, X]" by (simp add: np_zeros_def)
  from fill_triples_trace [OF fill [unfolded fill_volume_flat] sh0]
  have sh: "shape arr = [T, C, Z, Y, X]" by simp
  have "CHR ''T'' \<notin> set (dims czi) \<longrightarrow> T = 1"
    "CHR ''C'' \<notin> set (dims czi) \<longrightarrow> C = 1"
    "CHR ''Z'' \<notin> set (dims czi) \<longrightarrow> Z = 1"
    using pe by (auto simp: probe_extents_def Let_def dict_get_absent)
  then show ?thesis using sh by simp
qed

theorem missing_axes_have_extent_one_witness:
  "assemble_volume (demo_env None None None) demo_czi 1 =
       (Inr (1, 2, 2, 1, 2, \<lparr>shape = [1, 2, 2, 1, 2], dtype = ''uint16'',
                             data = [1, 5, 2, 6, 11, 15, 12, 16]\<rparr>),
        [EvReadMosaic 0 0 0 1, EvReadMosaic 0 0 0 1, EvReadMosaic 0 0 1 1,
         EvReadMosaic 0 1 0 1, EvReadMosaic 0 1 1 1])
   \<and> CHR ''T'' \<notin> set (dims demo_czi)
   \<and> shape \<lparr>shape = [1, 2, 2, 1, 2], dtype = ''uint16'',
              data = [1, 5, 2, 6, 11, 15, 12, 16 :: nat]\<rparr> ! 0 = 1"
proof -
  have absent: "CHR ''T'' \<notin> set (dims demo_czi)" by (simp add: demo_czi_def)
  from missing_axes_have_extent_one [OF demo_assemble [of None None None]] absent
  show ?thesis using demo_assemble [of None None None] by simp
qed

lemma palette_color:
  "(case base_rgbs ! (i mod length base_rgbs) of
      (r, g, b) \<Rightarrow> ColorInfo (Some (Color (real r) (real g) (real b) 1)))
   = ColorInfo (Some ([Color 1 0 0 1, Color 0 1 0 1, Color 0 0 1 1, Color 1 1 0 1] ! (i mod 4)))"
proof -
  have "i mod 4 < 4" by simp
  then consider "i mod 4 = 0" | "i mod 4 = 1" | "i mod 4 = 2" | "i mod 4 = 3" by linarith
  then show ?thesis
    by cases (simp_all add: base_rgbs_def)
qed

lemma channel_colors_small:
  assumes "C \<le> 4"
  shows "channel_colors C =
           take C [ColorInfo (Some (Color 1 0 0 1)), ColorInfo (Some (Color 0 1 0 1)),
                   ColorInfo (Some (Color 0 0 1 1)), ColorInfo (Some (Color 1 1 0 1))]"
proof -
  from assms consider "C = 0" | "C = 1" | "C = 2" | "C = 3" | "C = 4" by linarith
  then show ?thesis
    by cases (simp_all add: channel_colors_map base_rgbs_def upt_rec)
qed

lemma finish_event_of_write_ims:
  assumes "EvFinish ext params tms colors adj
             \<in> set (snd (write_ims env output_path T C Z Y X arr vx vy vz))"
  shows "ext = ImageExtents 0 0 0 (vx * real X) (vy * real Y) (vz * real Z)
       \<and> params = channel_params C \<and> tms = [now env] \<and> colors = channel_colors C \<and> adj"
  using assms by (auto simp: write_ims_eq Let_def split: sum.splits)

text \<open>
  Claim C4. For \<open>C\<close> channels the Imaris export names channel \<open>i\<close> "Channel i" and gives
  it the colour at position \<open>i mod 4\<close> of the palette red, green, blue, yellow, with alpha 1;
  these are the names and colours handed to \<open>Finish\<close>; for at most four channels the
  colours are the first \<open>C\<close> palette entries, pairwise distinct.
\<close>

theorem channel_names_and_colors:
  "length (channel_colors C) = C
   \<and> (\<forall>i < C. map_of (channel_names (channel_params C)) i = Some (''Channel '' @ str_nat i)
          \<and> channel_colors C ! i =
              ColorInfo (Some ([Color 1 0 0 1, Color 0 1 0 1, Color 0 0 1 1, Color 1 1 0 1]
                                 ! (i mod 4))))
   \<and> (C \<le> 4 \<longrightarrow>
         distinct (channel_colors C)
       \<and> channel_colors C =
           take C [ColorInfo (Some (Color 1 0 0 1)), ColorInfo (Some (Color 0 1 0 1)),
                   ColorInfo (Some (Color 0 0 1 1)), ColorInfo (Some (Color 1 1 0 1))])
   \<and> (\<forall>ext params tms colors adj.
         EvFinish ext params tms colors adj
           \<in> set (snd (write_ims env output_path T C Z Y X arr vx vy vz)) \<longrightarrow>
         params = channel_params C \<and> colors = channel_colors C)"
proof -
  have len: "length (channel_colors C) = C"
    by (simp add: channel_colors_map)
  have names: "map_of (channel_names (channel_params C)) i = Some (''Channel '' @ str_nat i)"
    if "i < C" for i
    using that by (simp add: channel_params_names map_of_map_restrict)
  have cols: "channel_colors C ! i =
      ColorInfo (Some ([Color 1 0 0 1, Color 0 1 0 1, Color 0 0 1 1, Color 1 1 0 1] ! (i mod 4)))"
    if "i < C" for i
    using that by (simp add: channel_colors_map palette_color)
  have small: "distinct (channel_colors C)" if "C \<le> 4"
    unfolding channel_colors_small [OF that]
    by (rule distinct_take) simp
  show ?thesis
    using len names cols small channel_colors_small finish_event_of_write_ims [of _ _ _ _ _ env]
    by blast
qed

theorem channel_names_and_colors_witness:
  "map_of (channel_names (channel_params 6)) 5 = Some ''Channel 5''
   \<and> channel_colors 6 ! 5 = ColorInfo (Some (Color 0 1 0 1))
   \<and> channel_colors 3 = [ColorInfo (Some (Color 1 0 0 1)), ColorInfo (Some (Color 0 1 0 1)),
                          ColorInfo (Some (Color 0 0 1 1))]"
proof -
  have s5: "str_nat 5 = ''5''" by (simp add: str_nat.simps digit_char_def)
  from channel_names_and_colors
      [where C = 6 and env = "demo_env None None None" and output_path = "''out.ims''"
      and T = 1 and Z = 2 and Y = 1 and X = 2 and vx = 1 and vy = 1 and vz = 1
      and arr = "\<lparr>shape = [], dtype = ''uint16'', data = []\<rparr>"] have
    "map_of (channel_names (channel_params 6)) 5 = Some (''Channel '' @ str_nat 5)"
    "channel_colors 6 ! 5 =
       ColorInfo (Some ([Color 1 0 0 1, Color 0 1 0 1, Color 0 0 1 1, Color 1 1 0 1] ! (5 mod 4)))"
    by simp_all
  moreover from channel_names_and_colors
      [where C = 3 and env = "demo_env None None None" and output_path = "''out.ims''"
      and T = 1 and Z = 2 and Y = 1 and X = 2 and vx = 1 and vy = 1 and vz = 1
      and arr = "\<lparr>shape = [], dtype = ''uint16'', data = []\<rparr>"] have
    "channel_colors 3 =
           take 3 [ColorInfo (Some (Color 1 0 0 1)), ColorInfo (Some (Color 0 1 0 1)),
                   ColorInfo (Some (Color 0 0 1 1)), ColorInfo (Some (Color 1 1 0 1))]"
    by simp
  ultimately show ?thesis by (simp add: s5)
qed

text \<open>
  Claim C6. When the flag of the guarded import is false, the Imaris converter raises the
  RuntimeError "PyImarisWriter unavailable; cannot write .ims" with an empty trace: no
  file has been opened and no plane read.
\<close>

theorem imaris_unavailable_fails_fast:
  assumes "\<not> IMARIS_AVAILABLE env"
  shows "convert_to_ims env input_czi output_path scale =
           (Inl (RuntimeError ''PyImarisWriter unavailable; cannot write .ims''), [])"
  using assms by (simp add: convert_to_ims_def io_raise_def)

theorem imaris_unavailable_fails_fast_witness:
  "\<not> IMARIS_AVAILABLE ((demo_env (Some 1) (Some 1) (Some 1))\<lparr>IMARIS_AVAILABLE := False\<rparr>)
   \<and> convert_to_ims ((demo_env (Some 1) (Some 1) (Some 1))\<lparr>IMARIS_AVAILABLE := False\<rparr>)
         ''in.czi'' ''out.ims'' 1 =
           (Inl (RuntimeError ''PyImarisWriter unavailable; cannot write .ims''), [])"
proof -
  have h: "\<not> IMARIS_AVAILABLE ((demo_env (Some 1) (Some 1) (Some 1))\<lparr>IMARIS_AVAILABLE := False\<rparr>)"
    by simp
  from imaris_unavailable_fails_fast [OF h] h show ?thesis by simp
qed

lemma convert_to_ims_reached:
  assumes "IMARIS_AVAILABLE env" and "CziFile env input_czi = Inr czi"
    and "assemble_volume env czi scale = (Inr (T, C, Z, Y, X, arr), tra)"
  shows "convert_to_ims env input_czi output_path scale =
     (case fst (ask_voxel_sizes env) of
        Inl e \<Rightarrow> (Inl e, EvCziFile input_czi # tra @ ask_events)
      | Inr (vx, vy, vz) \<Rightarrow>
          (fst (write_ims env output_path T C Z Y X arr vx vy vz),
           EvCziFile input_czi # tra @ ask_events
             @ snd (write_ims env output_path T C Z Y X arr vx vy vz)))"
  using assms
  by (simp add: convert_to_ims_def io_bind_def io_call_def ask_voxel_sizes_eq
      split: sum.splits prod.splits option.splits)

lemma assembled_length:
  assumes "wf_source czi scale"
    and "assemble_volume env czi scale = (Inr (T, C, Z, Y, X, arr), tr)"
  shows "length (data arr) = T * C * Z * (Y * X)"
proof -
  from assemble_volume_Inr [OF assms(2)] obtain sample tr' where
    rd: "read_mosaic czi 0 0 0 scale = Inr sample" and
    fill: "fill_volume env czi scale T C Z Y X (np_zeros [T, C, Z, Y, X] (dtype sample))
                 = (Inr arr, tr')"
    by blast
  let ?z = "np_zeros [T, C, Z, Y, X] (dtype sample) :: ('a, 'b) ndarray"
  have sh0: "shape ?z = [T, C, Z, Y, X]"
    and len0: "length (data ?z) = T * C * Z * (Y * X)"
    by (simp_all add: np_zeros_def)
  note inv = fill_triples_Inr [OF assms(1) fill [unfolded fill_volume_flat] sh0 len0]
  show ?thesis using inv by blast
qed

lemma write_ims_events_subset:
  "set (snd (write_ims env output_path T C Z Y X arr vx vy vz)) \<subseteq>
     {EvImageConverter (dtype_str env (dtype arr)) (ImageSize X Y Z C T)
        (ImageSize 1 1 1 1 1) [''x'', ''y'', ''z'', ''c'', ''t''] (ImageSize X Y Z C T)
        output_path Options ''CZI2IMS'' ''1.0'',
      EvCopyBlock (data arr) (ImageSize 0 0 0 0 0),
      EvFinish (ImageExtents 0 0 0 (vx * real X) (vy * real Y) (vz * real Z))
        (channel_params C) [now env] (channel_colors C) True,
      EvDestroy}"
  by (cases "ImageConverter_result env"; cases "CopyBlock_result env";
      cases "Finish_result env"; simp add: write_ims_eq Let_def)

lemma write_ims_success:
  assumes "fst (write_ims env output_path T C Z Y X arr vx vy vz) = Inr ()"
  shows "snd (write_ims env output_path T C Z Y X arr vx vy vz) =
     [EvImageConverter (dtype_str env (dtype arr)) (ImageSize X Y Z C T)
        (ImageSize 1 1 1 1 1) [''x'', ''y'', ''z'', ''c'', ''t''] (ImageSize X Y Z C T)
        output_path Options ''CZI2IMS'' ''1.0'',
      EvCopyBlock (data arr) (ImageSize 0 0 0 0 0),
      EvFinish (ImageExtents 0 0 0 (vx * real X) (vy * real Y) (vz * real Z))
        (channel_params C) [now env] (channel_colors C) True,
      EvDestroy]"
  using assms
  by (cases "ImageConverter_result env"; cases "CopyBlock_result env";
      cases "Finish_result env"; simp add: write_ims_eq Let_def)

lemma writer_events_reached:
  assumes "CziFile env input_czi = Inr czi"
    and "assemble_volume env czi scale = (Inr (T, C, Z, Y, X, arr), tra)"
    and "writer_event ev"
    and "ev \<in> set (snd (convert_to_ims env input_czi output_path scale))"
  shows "\<exists>vx vy vz. askfloat env ''Voxel Size'' (prompt_for ''X'') 1 = Some vx
      \<and> askfloat env ''Voxel Size'' (prompt_for ''Y'') 1 = Some vy
      \<and> askfloat env ''Voxel Size'' (prompt_for ''Z'') 1 = Some vz
      \<and> ev \<in> set (snd (write_ims env output_path T C Z Y X arr vx vy vz))"
proof -
  let ?run = "convert_to_ims env input_czi output_path scale"
  have av: "IMARIS_AVAILABLE env"
    using assms(4) by (auto simp: convert_to_ims_def io_raise_def split: if_splits)
  note eq = convert_to_ims_reached [OF av assms(1,2), of output_path]
  have reads: "\<forall>e \<in> set tra. \<not> writer_event e"
    using assemble_volume_events [of env czi scale] assms(2) by auto
  have pre: "ev \<notin> set (EvCziFile input_czi # tra @ ask_events)"
    using assms(3) reads by (auto simp: ask_events_def)
  show ?thesis
  proof (cases "fst (ask_voxel_sizes env)")
    case (Inl e)
    then have "snd ?run = EvCziFile input_czi # tra @ ask_events"
      using eq by simp
    then show ?thesis using assms(4) pre by simp
  next
    case (Inr v)
    obtain vx vy vz where v: "v = (vx, vy, vz)" by (cases v)
    have "snd ?run = (EvCziFile input_czi # tra @ ask_events)
                       @ snd (write_ims env output_path T C Z Y X arr vx vy vz)"
      using eq Inr v by simp
    then have "ev \<in> set (snd (write_ims env output_path T C Z Y X arr vx vy vz))"
      using assms(4) pre by auto
    moreover have "askfloat env ''Voxel Size'' (prompt_for ''X'') 1 = Some vx
      \<and> askfloat env ''Voxel Size'' (prompt_for ''Y'') 1 = Some vy
      \<and> askfloat env ''Voxel Size'' (prompt_for ''Z'') 1 = Some vz"
      using Inr v by (auto simp: ask_voxel_sizes_eq split: option.splits)
    ultimately show ?thesis by blast
  qed
qed

text \<open>
  Claim C5. In every run of the Imaris converter whose assembly returned \<open>arr\<close> with
  extents \<open>T, C, Z, Y, X\<close>: the converter is initialised with image size
  \<open>(x=X, y=Y, z=Z, c=C, t=T)\<close>, the same value as block size and sample size 1 on every
  axis; the only block copied is the C-order buffer of \<open>arr\<close>, which holds
  \<open>X * Y * Z * C * T\<close> elements, at the all-zero block index; and a successful run makes
  exactly the writer calls ImageConverter, CopyBlock, Finish, Destroy, one of each.
\<close>

theorem imaris_geometry_single_block:
  assumes "wf_source czi scale" and "CziFile env input_czi = Inr czi"
    and "assemble_volume env czi scale = (Inr (T, C, Z, Y, X, arr), tra)"
  shows "(\<forall>dt img smp sq blk path opts app ver.
            EvImageConverter dt img smp sq blk path opts app ver
              \<in> set (snd (convert_to_ims env input_czi output_path scale)) \<longrightarrow>
            img = ImageSize X Y Z C T \<and> blk = img \<and> smp = ImageSize 1 1 1 1 1
          \<and> sq = [''x'', ''y'', ''z'', ''c'', ''t''])
      \<and> (\<forall>flat idx.
            EvCopyBlock flat idx \<in> set (snd (convert_to_ims env input_czi output_path scale)) \<longrightarrow>
            flat = ravel_C arr \<and> flat = data arr \<and> idx = ImageSize 0 0 0 0 0
          \<and> length flat = X * Y * Z * C * T)
      \<and> (fst (convert_to_ims env input_czi output_path scale) = Inr () \<longrightarrow>
           (\<exists>vx vy vz.
              filter writer_event (snd (convert_to_ims env input_czi output_path scale)) =
                [EvImageConverter (dtype_str env (dtype arr)) (ImageSize X Y Z C T)
                   (ImageSize 1 1 1 1 1) [''x'', ''y'', ''z'', ''c'', ''t''] (ImageSize X Y Z C T)
                   output_path Options ''CZI2IMS'' ''1.0'',
                 EvCopyBlock (ravel_C arr) (ImageSize 0 0 0 0 0),
                 EvFinish (ImageExtents 0 0 0 (vx * real X) (vy * real Y) (vz * real Z))
                   (channel_params C) [now env] (channel_colors C) True,
                 EvDestroy]))"
proof -
  let ?tr = "snd (convert_to_ims env input_czi output_path scale)"
  have len: "length (data arr) = X * Y * Z * C * T"
    using assembled_length [OF assms(1,3)] by (simp add: mult_ac)
  have a: "img = ImageSize X Y Z C T \<and> blk = img \<and> smp = ImageSize 1 1 1 1 1
          \<and> sq = [''x'', ''y'', ''z'', ''c'', ''t'']"
    if "EvImageConverter dt img smp sq blk path opts app ver \<in> set ?tr"
    for dt img smp sq blk path opts app ver
  proof -
    from writer_events_reached [OF assms(2,3) _ that] obtain vx vy vz where
      "EvImageConverter dt img smp sq blk path opts app ver
         \<in> set (snd (write_ims env output_path T C Z Y X arr vx vy vz))"
      by auto
    then show ?thesis
      using write_ims_events_subset [of env output_path T C Z Y X arr vx vy vz] by auto
  qed
  have b: "flat = ravel_C arr \<and> flat = data arr \<and> idx = ImageSize 0 0 0 0 0
          \<and> length flat = X * Y * Z * C * T"
    if "EvCopyBlock flat idx \<in> set ?tr" for flat idx
  proof -
    from writer_events_reached [OF assms(2,3) _ that] obtain vx vy vz where
      "EvCopyBlock flat idx \<in> set (snd (write_ims env output_path T C Z Y X arr vx vy vz))"
      by auto
    then show ?thesis
      using write_ims_events_subset [of env output_path T C Z Y X arr vx vy vz] len
      by (auto simp: ravel_C_def)
  qed
  have c: "\<exists>vx vy vz.
              filter writer_event ?tr =
                [EvImageConverter (dtype_str env (dtype arr)) (ImageSize X Y Z C T)
                   (ImageSize 1 1 1 1 1) [''x'', ''y'', ''z'', ''c'', ''t''] (ImageSize X Y Z C T)
                   output_path Options ''CZI2IMS'' ''1.0'',
                 EvCopyBlock (ravel_C arr) (ImageSize 0 0 0 0 0),
                 EvFinish (ImageExtents 0 0 0 (vx * real X) (vy * real Y) (vz * real Z))
                   (channel_params C) [now env] (channel_colors C) True,
                 EvDestroy]"
    if ok: "fst (convert_to_ims env input_czi output_path scale) = Inr ()"
  proof -
    have av: "IMARIS_AVAILABLE env"
      using ok by (auto simp: convert_to_ims_def io_raise_def split: if_splits)
    from ok obtain vx vy vz where
      ask: "fst (ask_voxel_sizes env) = Inr (vx, vy, vz)"
      and w: "fst (write_ims env output_path T C Z Y X arr vx vy vz) = Inr ()"
      unfolding convert_to_ims_reached [OF av assms(2,3)]
      by (auto split: sum.splits prod.splits)
    have "filter writer_event ?tr = snd (write_ims env output_path T C Z Y X arr vx vy vz)"
      using av assms(2,3) ask by (simp add: convert_to_ims_writer_events)
    also have "\<dots> = [EvImageConverter (dtype_str env (dtype arr)) (ImageSize X Y Z C T)
                   (ImageSize 1 1 1 1 1) [''x'', ''y'', ''z'', ''c'', ''t''] (ImageSize X Y Z C T)
                   output_path Options ''CZI2IMS'' ''1.0'',
                 EvCopyBlock (ravel_C arr) (ImageSize 0 0 0 0 0),
                 EvFinish (ImageExtents 0 0 0 (vx * real X) (vy * real Y) (vz * real Z))
                   (channel_params C) [now env] (channel_colors C) True,
                 EvDestroy]"
      using write_ims_success [OF w] by (simp add: ravel_C_def)
    finally show ?thesis by blast
  qed
  show ?thesis using a b c by blast
qed

lemma demo_open: "CziFile (demo_env ax ay az) ''in.czi'' = Inr demo_czi"
  by (simp add: demo_env_def)

lemma demo_available: "IMARIS_AVAILABLE (demo_env ax ay az)"
  by (simp add: demo_env_def)

lemma demo_ask:
  "askfloat (demo_env ax ay az) ''Voxel Size'' (prompt_for ''X'') 1 = ax"
  "askfloat (demo_env ax ay az) ''Voxel Size'' (prompt_for ''Y'') 1 = ay"
  "askfloat (demo_env ax ay az) ''Voxel Size'' (prompt_for ''Z'') 1 = az"
  by (simp_all add: demo_env_def prompt_for_def)

lemma demo_ims_success:
  "fst (convert_to_ims (demo_env (Some vx) (Some vy) (Some vz)) ''in.czi'' ''out.ims'' 1) = Inr ()"
  by (simp add: convert_to_ims_reached [OF demo_available demo_open demo_assemble]
      ask_voxel_sizes_eq demo_ask write_ims_eq)
     (simp add: demo_env_def)

theorem imaris_geometry_single_block_witness:
  "wf_source demo_czi 1
   \<and> CziFile (demo_env (Some 1) (Some 1) (Some 1)) ''in.czi'' = Inr demo_czi
   \<and> assemble_volume (demo_env (Some 1) (Some 1) (Some 1)) demo_czi 1 =
       (Inr (1, 2, 2, 1, 2, \<lparr>shape = [1, 2, 2, 1, 2], dtype = ''uint16'',
                             data = [1, 5, 2, 6, 11, 15, 12, 16]\<rparr>),
        [EvReadMosaic 0 0 0 1, EvReadMosaic 0 0 0 1, EvReadMosaic 0 0 1 1,
         EvReadMosaic 0 1 0 1, EvReadMosaic 0 1 1 1])
   \<and> fst (convert_to_ims (demo_env (Some 1) (Some 1) (Some 1)) ''in.czi'' ''out.ims'' 1) = Inr ()
   \<and> (\<exists>vx vy vz.
        filter writer_event
          (snd (convert_to_ims (demo_env (Some 1) (Some 1) (Some 1)) ''in.czi'' ''out.ims'' 1)) =
          [EvImageConverter ''uint16'' (ImageSize 2 1 2 2 1) (ImageSize 1 1 1 1 1)
             [''x'', ''y'', ''z'', ''c'', ''t''] (ImageSize 2 1 2 2 1)
             ''out.ims'' Options ''CZI2IMS'' ''1.0'',
           EvCopyBlock [1, 5, 2, 6, 11, 15, 12, 16] (ImageSize 0 0 0 0 0),
           EvFinish (ImageExtents 0 0 0 (vx * 2) vy (vz * 2))
             (channel_params 2) [0] (channel_colors 2) True,
           EvDestroy])"
proof -
  let ?E = "demo_env (Some 1) (Some 1) (Some 1)"
  note ok = demo_ims_success [of 1 1 1]
  from imaris_geometry_single_block [OF demo_wf demo_open demo_assemble, of "Some 1" "Some 1" "Some 1" "''out.ims''"]
  have "fst (convert_to_ims ?E ''in.czi'' ''out.ims'' 1) = Inr () \<longrightarrow>
     (\<exists>vx vy vz.
        filter writer_event (snd (convert_to_ims ?E ''in.czi'' ''out.ims'' 1)) =
          [EvImageConverter (dtype_str ?E ''uint16'') (ImageSize 2 1 2 2 1) (ImageSize 1 1 1 1 1)
             [''x'', ''y'', ''z'', ''c'', ''t''] (ImageSize 2 1 2 2 1)
             ''out.ims'' Options ''CZI2IMS'' ''1.0'',
           EvCopyBlock (ravel_C \<lparr>shape = [1, 2, 2, 1, 2], dtype = ''uint16'',
                             data = [1, 5, 2, 6, 11, 15, 12, 16]\<rparr>) (ImageSize 0 0 0 0 0),
           EvFinish (ImageExtents 0 0 0 (vx * real 2) (vy * real 1) (vz * real 2))
             (channel_params 2) [now ?E] (channel_colors 2) True,
           EvDestroy])"
    by simp
  with ok have "\<exists>vx vy vz.
        filter writer_event (snd (convert_to_ims ?E ''in.czi'' ''out.ims'' 1)) =
          [EvImageConverter (dtype_str ?E ''uint16'') (ImageSize 2 1 2 2 1) (ImageSize 1 1 1 1 1)
             [''x'', ''y'', ''z'', ''c'', ''t''] (ImageSize 2 1 2 2 1)
             ''out.ims'' Options ''CZI2IMS'' ''1.0'',
           EvCopyBlock (ravel_C \<lparr>shape = [1, 2, 2, 1, 2], dtype = ''uint16'',
                             data = [1, 5, 2, 6, 11, 15, 12, 16]\<rparr>) (ImageSize 0 0 0 0 0),
           EvFinish (ImageExtents 0 0 0 (vx * real 2) (vy * real 1) (vz * real 2))
             (channel_params 2) [now ?E] (channel_colors 2) True,
           EvDestroy]"
    by blast
  then have "\<exists>vx vy vz.
        filter writer_event (snd (convert_to_ims ?E ''in.czi'' ''out.ims'' 1)) =
          [EvImageConverter ''uint16'' (ImageSize 2 1 2 2 1) (ImageSize 1 1 1 1 1)
             [''x'', ''y'', ''z'', ''c'', ''t''] (ImageSize 2 1 2 2 1)
             ''out.ims'' Options ''CZI2IMS'' ''1.0'',
           EvCopyBlock [1, 5, 2, 6, 11, 15, 12, 16] (ImageSize 0 0 0 0 0),
           EvFinish (ImageExtents 0 0 0 (vx * 2) vy (vz * 2))
             (channel_params 2) [0] (channel_colors 2) True,
           EvDestroy]"
    by (simp add: ravel_C_def demo_env_def)
  then show ?thesis
    using demo_wf demo_open [of "Some 1" "Some 1" "Some 1"]
      demo_assemble [of "Some 1" "Some 1" "Some 1"] ok
    by blast
qed

text \<open>
  Claim C7. Once the Imaris converter has assembled the volume, if any of the three
  voxel-size dialogs returns nothing, the run ends in the RuntimeError "Voxel size entry
  cancelled."; its trace is the opening of the file, the reads and the three dialogs, so
  the writer was never initialised and no block was written, and no value stands in for
  the missing answer.
\<close>

theorem voxel_prompt_cancel_aborts:
  assumes "IMARIS_AVAILABLE env" and "CziFile env input_czi = Inr czi"
    and "assemble_volume env czi scale = (Inr (T, C, Z, Y, X, arr), tra)"
    and "askfloat env ''Voxel Size'' (prompt_for ''X'') 1 = None
       \<or> askfloat env ''Voxel Size'' (prompt_for ''Y'') 1 = None
       \<or> askfloat env ''Voxel Size'' (prompt_for ''Z'') 1 = None"
  shows "convert_to_ims env input_czi output_path scale =
           (Inl (RuntimeError ''Voxel size entry cancelled.''),
            EvCziFile input_czi # tra @
              [EvAskFloat ''Voxel Size'' (prompt_for ''X'') 1,
               EvAskFloat ''Voxel Size'' (prompt_for ''Y'') 1,
               EvAskFloat ''Voxel Size'' (prompt_for ''Z'') 1])
       \<and> (\<forall>ev \<in> set (snd (convert_to_ims env input_czi output_path scale)).
             \<not> writer_event ev)"
proof -
  have ask: "fst (ask_voxel_sizes env) = Inl (RuntimeError ''Voxel size entry cancelled.'')"
    using assms(4) by (auto simp: ask_voxel_sizes_eq split: option.splits)
  have run: "convert_to_ims env input_czi output_path scale =
           (Inl (RuntimeError ''Voxel size entry cancelled.''),
            EvCziFile input_czi # tra @ ask_events)"
    using convert_to_ims_reached [OF assms(1-3), of output_path] ask by simp
  have reads: "\<forall>e \<in> set tra. \<not> writer_event e"
    using assemble_volume_events [of env czi scale] assms(3) by auto
  show ?thesis
    using run reads by (auto simp: ask_events_def)
qed

theorem voxel_prompt_cancel_aborts_witness:
  "IMARIS_AVAILABLE (demo_env (Some 1) None (Some 1))
   \<and> CziFile (demo_env (Some 1) None (Some 1)) ''in.czi'' = Inr demo_czi
   \<and> askfloat (demo_env (Some 1) None (Some 1)) ''Voxel Size'' (prompt_for ''Y'') 1 = None
   \<and> convert_to_ims (demo_env (Some 1) None (Some 1)) ''in.czi'' ''out.ims'' 1 =
       (Inl (RuntimeError ''Voxel size entry cancelled.''),
        [EvCziFile ''in.czi'',
         EvReadMosaic 0 0 0 1, EvReadMosaic 0 0 0 1, EvReadMosaic 0 0 1 1,
         EvReadMosaic 0 1 0 1, EvReadMosaic 0 1 1 1,
         EvAskFloat ''Voxel Size'' (prompt_for ''X'') 1,
         EvAskFloat ''Voxel Size'' (prompt_for ''Y'') 1,
         EvAskFloat ''Voxel Size'' (prompt_for ''Z'') 1])"
proof -
  have c: "askfloat (demo_env (Some 1) None (Some 1)) ''Voxel Size'' (prompt_for ''X'') 1 = None
       \<or> askfloat (demo_env (Some 1) None (Some 1)) ''Voxel Size'' (prompt_for ''Y'') 1 = None
       \<or> askfloat (demo_env (Some 1) None (Some 1)) ''Voxel Size'' (prompt_for ''Z'') 1 = None"
    by (simp add: demo_ask)
  from voxel_prompt_cancel_aborts [OF demo_available demo_open demo_assemble c, of "''out.ims''"]
  show ?thesis
    using demo_available [of "Some 1" None "Some 1"] demo_open [of "Some 1" None "Some 1"]
    by (simp add: demo_ask)
qed



lemma writer_trace_cases:
  "filter writer_event (snd (convert_to_ims env input_czi output_path scale)) = []
   \<or> (\<exists>T C Z Y X arr vx vy vz.
        filter writer_event (snd (convert_to_ims env input_czi output_path scale))
          = snd (write_ims env output_path T C Z Y X arr vx vy vz))"
  unfolding convert_to_ims_writer_events
  by (simp split: sum.splits prod.splits, blast)

lemma write_ims_destroy_iff:
  "EvDestroy \<in> set (snd (write_ims env output_path T C Z Y X arr vx vy vz)) \<longleftrightarrow>
     (\<exists>ext params tms colors adj.
        EvFinish ext params tms colors adj
          \<in> set (snd (write_ims env output_path T C Z Y X arr vx vy vz)))
     \<and> Finish_result env = Inr ()"
  by (cases "ImageConverter_result env"; cases "CopyBlock_result env";
      cases "Finish_result env"; auto simp add: write_ims_eq Let_def)


text \<open>
  Claim C9. In every run of the Imaris converter, \<open>Destroy\<close> is called exactly when
  \<open>Finish\<close> was called and returned without raising.
\<close>

theorem destroy_iff_finish_succeeds:
  "EvDestroy \<in> set (snd (convert_to_ims env input_czi output_path scale)) \<longleftrightarrow>
     (\<exists>ext params tms colors adj.
        EvFinish ext params tms colors adj
          \<in> set (snd (convert_to_ims env input_czi output_path scale)))
     \<and> Finish_result env = Inr ()"
proof -
  let ?tr = "snd (convert_to_ims env input_czi output_path scale)"
  let ?W = "filter writer_event ?tr"
  have d: "EvDestroy \<in> set ?tr \<longleftrightarrow> EvDestroy \<in> set ?W" by simp
  have f: "EvFinish ext params tms colors adj \<in> set ?tr
             \<longleftrightarrow> EvFinish ext params tms colors adj \<in> set ?W"
    for ext params tms colors adj by simp
  from writer_trace_cases [of env input_czi output_path scale] show ?thesis
  proof
    assume "?W = []"
    then show ?thesis unfolding d f by simp
  next
    assume "\<exists>T C Z Y X arr vx vy vz.
        ?W = snd (write_ims env output_path T C Z Y X arr vx vy vz)"
    then obtain T C Z Y X arr vx vy vz where
      "?W = snd (write_ims env output_path T C Z Y X arr vx vy vz)" by blast
    then show ?thesis unfolding d f by (simp only: write_ims_destroy_iff)
  qed
qed

theorem destroy_iff_finish_succeeds_witness:
  "EvDestroy \<in> set (snd (convert_to_ims (demo_env (Some 1) (Some 1) (Some 1))
                              ''in.czi'' ''out.ims'' 1))
   \<and> Finish_result (demo_env (Some 1) (Some 1) (Some 1)) = Inr ()
   \<and> Finish_result ((demo_env (Some 1) (Some 1) (Some 1))
                       \<lparr>Finish_result := Inl (ExternalError ''finish failed'')\<rparr>) \<noteq> Inr ()
   \<and> EvDestroy \<notin> set (snd (convert_to_ims
          ((demo_env (Some 1) (Some 1) (Some 1))
             \<lparr>Finish_result := Inl (ExternalError ''finish failed'')\<rparr>)
          ''in.czi'' ''out.ims'' 1))"
proof -
  let ?E = "demo_env (Some 1) (Some 1) (Some 1)"
  let ?F = "?E\<lparr>Finish_result := Inl (ExternalError ''finish failed'')\<rparr>"
  have ok: "Finish_result ?E = Inr ()" by (simp add: demo_env_def)
  have bad: "Finish_result ?F \<noteq> Inr ()" by simp
  have w: "EvDestroy \<in> set (snd (convert_to_ims ?E ''in.czi'' ''out.ims'' 1))"
    by code_simp
  have "EvDestroy \<notin> set (snd (convert_to_ims ?F ''in.czi'' ''out.ims'' 1))"
    using destroy_iff_finish_succeeds [of ?F "''in.czi''" "''out.ims''" 1] bad by simp
  moreover have "EvDestroy \<in> set (snd (convert_to_ims ?E ''in.czi'' ''out.ims'' 1))"
    using w by simp
  ultimately show ?thesis using ok bad by simp
qed

text \<open>
  Claim C1 as stated fails. All reads of \<open>czi_big\<close> succeed, the plane decoded for the
  triple \<open>(0, 0, 1)\<close> is \<open>[7, 8, 9, 10]\<close>, and the slice holds \<open>[7, 8]\<close>; all reads of
  \<open>czi_odd\<close> succeed and the assembly raises ValueError, so there is no array; the plane
  of \<open>czi_dt\<close> for \<open>(0, 0, 1)\<close> is \<open>[300, 8]\<close> and the slice holds \<open>[44, 8]\<close>.
\<close>

theorem nonuniform_planes_not_held:
  "read_mosaic czi_big 0 0 0 1 = Inr \<lparr>shape = [1, 2], dtype = ''uint16'', data = [1, 2]\<rparr>
   \<and> read_mosaic czi_big 0 0 1 1
       = Inr \<lparr>shape = [2, 2], dtype = ''uint16'', data = [7, 8, 9, 10]\<rparr>
   \<and> assemble_volume (demo_env None None None) czi_big 1 =
       (Inr (1, 1, 2, 1, 2,
             \<lparr>shape = [1, 1, 2, 1, 2], dtype = ''uint16'', data = [1, 2, 7, 8]\<rparr>),
        [EvReadMosaic 0 0 0 1, EvReadMosaic 0 0 0 1, EvReadMosaic 0 0 1 1])
   \<and> nd_slice3 \<lparr>shape = [1, 1, 2, 1, 2], dtype = ''uint16'', data = [1, 2, 7, 8 :: nat]\<rparr>
         0 0 1 = [7, 8]
   \<and> [7, 8] \<noteq> [7, 8, 9, 10 :: nat]
   \<and> read_mosaic czi_odd 0 0 0 1 = Inr \<lparr>shape = [1, 2], dtype = ''uint16'', data = [1, 2]\<rparr>
   \<and> read_mosaic czi_odd 0 0 1 1
       = Inr \<lparr>shape = [1, 3], dtype = ''uint16'', data = [7, 8, 9]\<rparr>
   \<and> assemble_volume (demo_env None None None) czi_odd 1 =
       (Inl ValueError,
        [EvReadMosaic 0 0 0 1, EvReadMosaic 0 0 0 1, EvReadMosaic 0 0 1 1])
   \<and> read_mosaic czi_dt 0 0 0 1 = Inr \<lparr>shape = [1, 2], dtype = ''uint8'', data = [1, 2]\<rparr>
   \<and> read_mosaic czi_dt 0 0 1 1
       = Inr \<lparr>shape = [1, 2], dtype = ''uint16'', data = [300, 8]\<rparr>
   \<and> assemble_volume demo_env_trunc czi_dt 1 =
       (Inr (1, 1, 2, 1, 2,
             \<lparr>shape = [1, 1, 2, 1, 2], dtype = ''uint8'', data = [1, 2, 44, 8]\<rparr>),
        [EvReadMosaic 0 0 0 1, EvReadMosaic 0 0 0 1, EvReadMosaic 0 0 1 1])
   \<and> nd_slice3 \<lparr>shape = [1, 1, 2, 1, 2], dtype = ''uint8'', data = [1, 2, 44, 8 :: nat]\<rparr>
         0 0 1 = [44, 8]
   \<and> [44, 8] \<noteq> [300, 8 :: nat]"
  by code_simp

text \<open>
  Claim C1, as the code has it. For a source whose probed extents are \<open>T, C, Z\<close>, whose
  sample plane read at \<open>(0, 0, 0)\<close> has the last two extents \<open>Y, X\<close> with \<open>Y * X > 0\<close>, and
  whose read of every triple in range succeeds with a mosaic of shape \<open>(Y, X)\<close> or
  \<open>(1, Y, X)\<close>: the assembly returns an array of shape \<open>(T, C, Z, Y, X)\<close> with the dtype
  of the sample plane, and for every triple the slice \<open>arr[t, c, z]\<close> holds the plane
  decoded for that triple converted to that dtype, which is the plane itself when the
  mosaic has the sample's dtype.
\<close>

theorem uniform_source_assembled:
  assumes "wf_source czi scale"
    and "probe_extents czi = (T, C, Z)"
    and "read_mosaic czi 0 0 0 scale = Inr sample"
    and "shape_neg (shape sample) 2 = Inr Y" and "shape_neg (shape sample) 1 = Inr X"
    and "Y * X \<noteq> 0"
    and "\<forall>t < T. \<forall>c < C. \<forall>z < Z. \<exists>mos.
           read_mosaic czi t c z scale = Inr mos
         \<and> (shape mos = [Y, X] \<or> shape mos = [1, Y, X])"
  shows "\<exists>arr tr. assemble_volume env czi scale = (Inr (T, C, Z, Y, X, arr), tr)
      \<and> shape arr = [T, C, Z, Y, X] \<and> dtype arr = dtype sample
      \<and> (\<forall>t < T. \<forall>c < C. \<forall>z < Z. \<exists>mos.
            read_mosaic czi t c z scale = Inr mos
          \<and> nd_slice3 arr t c z = map (cast_to env (dtype mos) (dtype sample)) (data mos)
          \<and> (dtype mos = dtype sample \<longrightarrow> nd_slice3 arr t c z = data mos))"
proof -
  have ok: "\<forall>t < T. \<forall>c < C. \<forall>z < Z. plane_ok czi scale Y X (t, c, z)"
  proof (intro allI impI)
    fix t c z assume "t < T" "c < C" "z < Z"
    with assms(7) obtain mos where "read_mosaic czi t c z scale = Inr mos"
      and "shape mos = [Y, X] \<or> shape mos = [1, Y, X]"
      by blast
    then show "plane_ok czi scale Y X (t, c, z)"
      using assms(6) by (rule uniform_planes_ok)
  qed
  from assemble_volume_succeeds [OF assms(2-5) ok, of env] obtain arr tr where
    run: "assemble_volume env czi scale = (Inr (T, C, Z, Y, X, arr), tr)"
    by blast
  from assemble_volume_result [OF assms(1) run] assms(3) have
    sh: "shape arr = [T, C, Z, Y, X]" and dt: "dtype arr = dtype sample"
    by auto
  have "\<exists>mos. read_mosaic czi t c z scale = Inr mos
          \<and> nd_slice3 arr t c z = map (cast_to env (dtype mos) (dtype sample)) (data mos)
          \<and> (dtype mos = dtype sample \<longrightarrow> nd_slice3 arr t c z = data mos)"
    if rng: "t < T" "c < C" "z < Z" for t c z
  proof -
    from assms(7) rng obtain mos where
      m: "read_mosaic czi t c z scale = Inr mos"
      and s: "shape mos = [Y, X] \<or> shape mos = [1, Y, X]"
      by blast
    have wf: "wf_ndarray mos" using assms(1) m by (auto simp: wf_source_def)
    have whole: "take (Y * X) (data mos) = data mos" by (rule whole_plane [OF wf s])
    have sl: "nd_slice3 arr t c z = map (cast_to env (dtype mos) (dtype sample)) (data mos)"
      using assembled_slices(2) [OF assms(1) run rng] m whole dt
      by (simp add: first_plane_def)
    moreover have "nd_slice3 arr t c z = data mos" if "dtype mos = dtype sample"
      using sl that by (simp add: cast_to_same)
    ultimately show ?thesis using m by blast
  qed
  then show ?thesis using run sh dt by blast
qed

theorem uniform_source_assembled_witness:
  "wf_source demo_czi 1 \<and> probe_extents demo_czi = (1, 2, 2)
   \<and> read_mosaic demo_czi 0 0 0 1 = Inr \<lparr>shape = [1, 1, 2], dtype = ''uint16'', data = [1, 5]\<rparr>
   \<and> (\<exists>arr tr. assemble_volume (demo_env None None None) demo_czi 1
                    = (Inr (1, 2, 2, 1, 2, arr), tr)
         \<and> shape arr = [1, 2, 2, 1, 2] \<and> dtype arr = ''uint16''
         \<and> nd_slice3 arr 0 1 0 = [11, 15] \<and> nd_slice3 arr 0 1 1 = [12, 16])"
proof -
  let ?sample = "\<lparr>shape = [1, 1, 2], dtype = ''uint16'', data = [1, 5 :: nat]\<rparr>"
  have rd: "read_mosaic demo_czi 0 0 0 1 = Inr ?sample"
    by (simp add: demo_czi_def)
  have y: "shape_neg (shape ?sample) 2 = Inr 1" and x: "shape_neg (shape ?sample) 1 = Inr 2"
    by (simp_all add: shape_neg_def)
  have nz: "1 * 2 \<noteq> (0 :: nat)" by simp
  have uni: "\<forall>t < 1. \<forall>c < 2. \<forall>z < 2. \<exists>mos.
           read_mosaic demo_czi t c z 1 = Inr mos
         \<and> (shape mos = [1, 2] \<or> shape mos = [1, 1, 2])"
    by (simp add: demo_czi_def)
  from uniform_source_assembled [OF demo_wf demo_probe rd y x nz uni, of "demo_env None None None"]
  obtain arr tr where
    run: "assemble_volume (demo_env None None None) demo_czi 1 = (Inr (1, 2, 2, 1, 2, arr), tr)"
    and sh: "shape arr = [1, 2, 2, 1, 2]" and dt: "dtype arr = dtype ?sample"
    and sl: "\<forall>t < 1. \<forall>c < 2. \<forall>z < 2. \<exists>mos.
            read_mosaic demo_czi t c z 1 = Inr mos
          \<and> nd_slice3 arr t c z = map (cast_to (demo_env None None None) (dtype mos) (dtype ?sample)) (data mos)
          \<and> (dtype mos = dtype ?sample \<longrightarrow> nd_slice3 arr t c z = data mos)"
    by blast
  from sl have "\<exists>mos. read_mosaic demo_czi 0 1 0 1 = Inr mos
          \<and> (dtype mos = dtype ?sample \<longrightarrow> nd_slice3 arr 0 1 0 = data mos)"
    by (meson zero_less_one one_less_numeral_iff semiring_norm(76) zero_less_numeral)
  then have a: "nd_slice3 arr 0 1 0 = [11, 15]"
    by (auto simp: demo_czi_def)
  from sl have "\<exists>mos. read_mosaic demo_czi 0 1 1 1 = Inr mos
          \<and> (dtype mos = dtype ?sample \<longrightarrow> nd_slice3 arr 0 1 1 = data mos)"
    by (meson zero_less_one one_less_numeral_iff semiring_norm(76) zero_less_numeral)
  then have b: "nd_slice3 arr 0 1 1 = [12, 16]"
    by (auto simp: demo_czi_def)
  show ?thesis
    using demo_wf demo_probe rd run sh dt a b by auto
qed

end
